theory Spec2Isabelle
  imports Complex_Main
begin

section \<open>Location hierarchy matching (match\_locations.py)\<close>

text \<open>
  A shallow embedding of the location matching engine of \<^verbatim>\<open>src/match_locations.py\<close>.

  Conventions of the model.
  \<^item> A Python \<^verbatim>\<open>str\<close> is a \<open>string\<close>; a character is read as the code point
    of the same number (0 to 255).
  \<^item> A Python \<^verbatim>\<open>float\<close> is a \<open>real\<close>: scores, weights, coordinates and
    distances are computed exactly. Where \<^verbatim>\<open>math.sqrt\<close> or \<^verbatim>\<open>math.asin\<close>
    would raise \<^verbatim>\<open>ValueError\<close>, the model returns the error as a value.
  \<^item> A Python \<^verbatim>\<open>dict\<close> whose iteration order decides a result is an
    association list in insertion order.
  \<^item> The functions start from the normalised text fields (the \<^verbatim>\<open>texts\<close>
    dictionary) and from the loaded hierarchy (the \<^verbatim>\<open>groups\<close> dictionary).
  \<^item> The evidence string \<^verbatim>\<open>matchedText\<close> (and \<^verbatim>\<open>matched_name\<close>) is left
    out: no branch of the code reads it.
\<close>

subsection \<open>Strings: substring test and word-boundary search\<close>

text \<open>
  \<^verbatim>\<open>\w\<close> of Python's \<^verbatim>\<open>re\<close> on \<^verbatim>\<open>str\<close>: the alphanumeric characters and
  the underscore. Below code point 256 these are the ASCII letters and digits, the
  underscore, and the Latin-1 letters and numerics listed here.
\<close>

definition latin1_word_chars :: "char list" where
  "latin1_word_chars =
     [CHR 0xAA, CHR 0xB2, CHR 0xB3, CHR 0xB5, CHR 0xB9, CHR 0xBA, CHR 0xBC, CHR 0xBD, CHR 0xBE,
      CHR 0xC0, CHR 0xC1, CHR 0xC2, CHR 0xC3, CHR 0xC4, CHR 0xC5, CHR 0xC6, CHR 0xC7,
      CHR 0xC8, CHR 0xC9, CHR 0xCA, CHR 0xCB, CHR 0xCC, CHR 0xCD, CHR 0xCE, CHR 0xCF,
      CHR 0xD0, CHR 0xD1, CHR 0xD2, CHR 0xD3, CHR 0xD4, CHR 0xD5, CHR 0xD6,
      CHR 0xD8, CHR 0xD9, CHR 0xDA, CHR 0xDB, CHR 0xDC, CHR 0xDD, CHR 0xDE, CHR 0xDF,
      CHR 0xE0, CHR 0xE1, CHR 0xE2, CHR 0xE3, CHR 0xE4, CHR 0xE5, CHR 0xE6, CHR 0xE7,
      CHR 0xE8, CHR 0xE9, CHR 0xEA, CHR 0xEB, CHR 0xEC, CHR 0xED, CHR 0xEE, CHR 0xEF,
      CHR 0xF0, CHR 0xF1, CHR 0xF2, CHR 0xF3, CHR 0xF4, CHR 0xF5, CHR 0xF6,
      CHR 0xF8, CHR 0xF9, CHR 0xFA, CHR 0xFB, CHR 0xFC, CHR 0xFD, CHR 0xFE, CHR 0xFF]"

definition is_word_char :: "char \<Rightarrow> bool" where
  "is_word_char c \<longleftrightarrow>
     c \<in> set ''abcdefghijklmnopqrstuvwxyz'' \<or>
     c \<in> set ''ABCDEFGHIJKLMNOPQRSTUVWXYZ'' \<or>
     c \<in> set ''0123456789_'' \<or>
     c \<in> set latin1_word_chars"

text \<open>The character before or after a position; \<open>None\<close> at either end of the text.\<close>

definition is_word_opt :: "char option \<Rightarrow> bool" where
  "is_word_opt c = (case c of None \<Rightarrow> False | Some x \<Rightarrow> is_word_char x)"

definition at_boundary :: "char option \<Rightarrow> char option \<Rightarrow> bool" where
  \<comment> \<open>\<^verbatim>\<open>\b\<close>: exactly one of the two neighbours is a word character\<close>
  "at_boundary prev nxt \<longleftrightarrow> is_word_opt prev \<noteq> is_word_opt nxt"

definition hd_opt :: "'a list \<Rightarrow> 'a option" where
  "hd_opt xs = (case xs of [] \<Rightarrow> None | x # _ \<Rightarrow> Some x)"

definition startswith :: "string \<Rightarrow> string \<Rightarrow> bool" where
  \<comment> \<open>\<^verbatim>\<open>text.startswith(p)\<close>\<close>
  "startswith text p \<longleftrightarrow> take (length p) text = p"

definition match_at :: "string \<Rightarrow> char option \<Rightarrow> string \<Rightarrow> bool" where
  \<comment> \<open>the pattern \<^verbatim>\<open>\b\<close> + escaped \<open>p\<close> + \<^verbatim>\<open>\b\<close> matches at the start of \<open>rest\<close>,
      which follows the character \<open>prev\<close>\<close>
  "match_at p prev rest \<longleftrightarrow>
     startswith rest p \<and>
     at_boundary prev (hd_opt rest) \<and>
     at_boundary (if p = [] then prev else Some (last p)) (hd_opt (drop (length p) rest))"

fun search_from :: "string \<Rightarrow> char option \<Rightarrow> string \<Rightarrow> bool" where
  "search_from p prev [] = match_at p prev []"
| "search_from p prev (c # cs) = (match_at p prev (c # cs) \<or> search_from p (Some c) cs)"

definition re_search_word :: "string \<Rightarrow> string \<Rightarrow> bool" where
  \<comment> \<open>\<^verbatim>\<open>re.search(r'\b' + re.escape(p) + r'\b', text)\<close> finds a match\<close>
  "re_search_word p text = search_from p None text"

fun str_in :: "string \<Rightarrow> string \<Rightarrow> bool" where
  \<comment> \<open>\<^verbatim>\<open>p in text\<close>\<close>
  "str_in p [] = (p = [])"
| "str_in p (c # cs) = (startswith (c # cs) p \<or> str_in p cs)"

subsection \<open>Great-circle distance\<close>

datatype error = ValueError

definition radians :: "real \<Rightarrow> real" where
  "radians x = x * pi / 180"

definition haversine_a :: "real \<Rightarrow> real \<Rightarrow> real \<Rightarrow> real \<Rightarrow> real" where
  "haversine_a lat1 lon1 lat2 lon2 =
     (let dlat = radians (lat2 - lat1);
          dlon = radians (lon2 - lon1)
      in (sin (dlat / 2))\<^sup>2 + cos (radians lat1) * cos (radians lat2) * (sin (dlon / 2))\<^sup>2)"

definition haversine_distance :: "real \<Rightarrow> real \<Rightarrow> real \<Rightarrow> real \<Rightarrow> error + real" where
  \<comment> \<open>\<^verbatim>\<open>math.sqrt\<close> raises on a negative argument, \<^verbatim>\<open>math.asin\<close> outside \<open>[-1, 1]\<close>\<close>
  "haversine_distance lat1 lon1 lat2 lon2 =
     (let a = haversine_a lat1 lon1 lat2 lon2
      in if a < 0 then Inl ValueError
         else if 1 < sqrt a then Inl ValueError
         else Inr (6371 * 2 * arcsin (sqrt a)))"

subsection \<open>Text normalisation and location prefixes\<close>

text \<open>
  \<^verbatim>\<open>normalize_text\<close>: lowercase, decompose (NFD) and drop the combining marks, strip
  the white space at both ends. On the code points 0 to 255 the first two steps send each
  character to one character: an upper-case letter to its lower-case letter, an accented
  letter to its base letter.
\<close>

definition in_range :: "nat \<Rightarrow> nat \<Rightarrow> nat \<Rightarrow> bool" where
  "in_range lo hi n \<longleftrightarrow> lo \<le> n \<and> n \<le> hi"

definition normalize_char :: "char \<Rightarrow> char" where
  "normalize_char c =
     (let n = (of_char c :: nat) in
      if in_range 65 90 n then char_of (n + 32)
      else if in_range 192 197 n \<or> in_range 224 229 n then CHR ''a''
      else if n = 198 then CHR 0xE6
      else if n = 199 \<or> n = 231 then CHR ''c''
      else if in_range 200 203 n \<or> in_range 232 235 n then CHR ''e''
      else if in_range 204 207 n \<or> in_range 236 239 n then CHR ''i''
      else if n = 208 then CHR 0xF0
      else if n = 209 \<or> n = 241 then CHR ''n''
      else if in_range 210 214 n \<or> in_range 242 246 n then CHR ''o''
      else if n = 216 then CHR 0xF8
      else if in_range 217 220 n \<or> in_range 249 252 n then CHR ''u''
      else if n = 221 \<or> n = 253 \<or> n = 255 then CHR ''y''
      else if n = 222 then CHR 0xFE
      else c)"

definition is_space :: "char \<Rightarrow> bool" where
  \<comment> \<open>the characters \<^verbatim>\<open>str.strip()\<close> removes\<close>
  "is_space c \<longleftrightarrow>
     c \<in> set [CHR 0x09, CHR 0x0A, CHR 0x0B, CHR 0x0C, CHR 0x0D, CHR 0x1C, CHR 0x1D, CHR 0x1E,
               CHR 0x1F, CHR 0x20, CHR 0x85, CHR 0xA0]"

definition strip :: "string \<Rightarrow> string" where
  "strip s = rev (dropWhile is_space (rev (dropWhile is_space s)))"

definition normalize_text :: "string \<Rightarrow> string" where
  "normalize_text text = (if text = [] then [] else strip (map normalize_char text))"

text \<open>
  The prefixes of \<^verbatim>\<open>remove_location_prefixes\<close>, in the order of the source. The source
  spells three more entries (after \<^verbatim>\<open>urbanizacion\<close>, \<^verbatim>\<open>lotificacion\<close> and before
  \<^verbatim>\<open>canton\<close>) with characters above code point 255; no string of this model starts
  with one of them, so they are left out.
\<close>

definition location_prefixes :: "string list" where
  "location_prefixes =
     [''residencial '', ''colonia '', ''urbanizacion '',
      ''barrio '', ''lotificacion '', ''reparto '',
      ''comunidad '', ''canton '', ''caserio '',
      ''col. '', ''res. '', ''urb. '', ''bo. '',
      ''la '', ''el '', ''los '', ''las '']"

function strip_prefixes :: "string \<Rightarrow> string" where
  "strip_prefixes s =
     (case find (startswith s) location_prefixes of
        None \<Rightarrow> s
      | Some p \<Rightarrow> strip_prefixes (drop (length p) s))"
  by pat_completeness auto
termination
proof (relation "measure length")
  show "wf (measure length)" by simp
next
  fix s :: string and p :: string
  assume f: "find (startswith s) location_prefixes = Some p"
  then have mem: "p \<in> set location_prefixes" and sw: "startswith s p"
    by (auto simp: find_Some_iff)
  from mem have "p \<noteq> []"
    by (auto simp: location_prefixes_def)
  moreover from sw have "length p \<le> length s"
    by (metis startswith_def length_take min.cobounded1)
  ultimately show "(drop (length p) s, s) \<in> measure length"
    by (cases p) auto
qed

definition remove_location_prefixes :: "string \<Rightarrow> string" where
  "remove_location_prefixes text = strip (strip_prefixes (normalize_text text))"

subsection \<open>Hierarchy nodes and the index\<close>

record loc_info =
  loc_id :: int
  name :: string
  normalized :: string
  no_prefix :: string
  alt_names :: "string list"
  parent_id :: "int option"
  latitude :: "real option"
  longitude :: "real option"

type_synonym level_data = "(int \<times> loc_info) list"

record groups =
  l2 :: level_data
  l3 :: level_data
  l4 :: level_data
  l5 :: level_data

definition groups_get :: "groups \<Rightarrow> nat \<Rightarrow> level_data" where
  \<comment> \<open>\<^verbatim>\<open>groups.get(level, {})\<close>\<close>
  "groups_get g level =
     (if level = 2 then l2 g else if level = 3 then l3 g
      else if level = 4 then l4 g else if level = 5 then l5 g else [])"

datatype source = Title | Location | Details | Description

record texts =
  title :: string
  location :: string
  details :: string
  description :: string

definition texts_get :: "texts \<Rightarrow> source \<Rightarrow> string" where
  "texts_get t s =
     (case s of Title \<Rightarrow> title t | Location \<Rightarrow> location t
      | Details \<Rightarrow> details t | Description \<Rightarrow> description t)"

definition texts_items :: "source list" where
  \<comment> \<open>the order of \<^verbatim>\<open>texts.items()\<close>: the order in which the callers build the dictionary\<close>
  "texts_items = [Title, Location, Details, Description]"

record loc_ids =
  locGroup2Id :: "int option"
  locGroup3Id :: "int option"
  locGroup4Id :: "int option"
  locGroup5Id :: "int option"

datatype match_source = Field source | Coordinates | Coordinates_auto_l2 | Text_auto_l2

record match_result = loc_ids +
  matchLevel :: "nat option"
  matchScore :: "real option"
  matchSource :: "match_source option"

definition no_ids :: loc_ids where
  "no_ids = \<lparr>locGroup2Id = None, locGroup3Id = None, locGroup4Id = None, locGroup5Id = None\<rparr>"

definition empty_result :: match_result where
  "empty_result =
     \<lparr>locGroup2Id = None, locGroup3Id = None, locGroup4Id = None, locGroup5Id = None,
      matchLevel = None, matchScore = None, matchSource = None\<rparr>"

definition update_chain :: "match_result \<Rightarrow> loc_ids \<Rightarrow> match_result" where
  \<comment> \<open>\<^verbatim>\<open>result.update(chain)\<close>: all four ids are overwritten\<close>
  "update_chain r c =
     r\<lparr>locGroup2Id := locGroup2Id c, locGroup3Id := locGroup3Id c,
       locGroup4Id := locGroup4Id c, locGroup5Id := locGroup5Id c\<rparr>"

subsection \<open>Parent chain\<close>

definition set_level :: "loc_ids \<Rightarrow> nat \<Rightarrow> int \<Rightarrow> loc_ids" where
  \<comment> \<open>\<^verbatim>\<open>result[f'locGroup{level}Id'] = id\<close>; the callers pass levels 2 to 5 only\<close>
  "set_level r level i =
     (if level = 2 then r\<lparr>locGroup2Id := Some i\<rparr>
      else if level = 3 then r\<lparr>locGroup3Id := Some i\<rparr>
      else if level = 4 then r\<lparr>locGroup4Id := Some i\<rparr>
      else if level = 5 then r\<lparr>locGroup5Id := Some i\<rparr>
      else r)"

function chain_loop :: "groups \<Rightarrow> int \<Rightarrow> nat \<Rightarrow> loc_ids \<Rightarrow> loc_ids" where
  "chain_loop g current_id current_level result =
     (if current_level \<le> 5 then
        (let result' = set_level result current_level current_id in
         if current_level = 5 then result'
         else (case map_of (groups_get g current_level) current_id of
                 None \<Rightarrow> result'
               | Some info \<Rightarrow>
                   (case parent_id info of
                      None \<Rightarrow> result'
                    | Some p \<Rightarrow>
                        if p \<noteq> 0 then chain_loop g p (current_level + 1) result'
                        else result')))
      else result)"
  by pat_completeness auto
termination
  by (relation "measure (\<lambda>(g, i, level, r). 6 - level)") auto

definition get_parent_chain :: "int \<Rightarrow> nat \<Rightarrow> groups \<Rightarrow> loc_ids" where
  "get_parent_chain i level g = chain_loop g i level no_ids"

subsection \<open>Text matching in one level\<close>

definition source_weight :: "source \<Rightarrow> real" where
  "source_weight s =
     (case s of Title \<Rightarrow> 1 | Location \<Rightarrow> 95/100 | Details \<Rightarrow> 85/100 | Description \<Rightarrow> 75/100)"

definition has_alt_in :: "string list \<Rightarrow> string \<Rightarrow> bool" where
  \<comment> \<open>the quick check on the alternative names: \<^verbatim>\<open>alt and alt in text\<close>\<close>
  "has_alt_in alts text = list_ex (\<lambda>alt. alt \<noteq> [] \<and> str_in alt text) alts"

definition alt_word_match :: "string list \<Rightarrow> string \<Rightarrow> bool" where
  \<comment> \<open>some alternative name is not empty and matches as a whole word\<close>
  "alt_word_match alts text = list_ex (\<lambda>alt. alt \<noteq> [] \<and> re_search_word alt text) alts"

definition name_score :: "string \<Rightarrow> loc_info \<Rightarrow> real" where
  \<comment> \<open>the body of the loop of \<^verbatim>\<open>find_match_in_level\<close> up to the source weight:
      the score of one node, 0 when the node is skipped or nothing matches\<close>
  "name_score text info =
     (if normalized info = [] then 0
      else if \<not> str_in (normalized info) text \<and> \<not> has_alt_in (alt_names info) text then 0
      else if re_search_word (normalized info) text then 1
      else if no_prefix info \<noteq> [] \<and> re_search_word (no_prefix info) text then 95/100
      else if alt_word_match (alt_names info) text then 9/10
      else 0)"

fun find_match_loop ::
  "string \<Rightarrow> source \<Rightarrow> level_data \<Rightarrow> (int \<times> real) option \<Rightarrow> real \<Rightarrow> (int \<times> real) option" where
  "find_match_loop text src [] best_match best_score = best_match"
| "find_match_loop text src ((k, info) # rest) best_match best_score =
     (let score = name_score text info in
      if score > 0 then
        (let score' = score * source_weight src in
         if score' > best_score then find_match_loop text src rest (Some (k, score')) score'
         else find_match_loop text src rest best_match best_score)
      else find_match_loop text src rest best_match best_score)"

definition find_match_in_level :: "string \<Rightarrow> level_data \<Rightarrow> source \<Rightarrow> (int \<times> real) option" where
  "find_match_in_level text level_data src =
     (if text = [] then None else find_match_loop text src level_data None 0)"

definition filter_parent :: "level_data \<Rightarrow> int \<Rightarrow> level_data" where
  \<comment> \<open>\<^verbatim>\<open>{k: v for k, v in level_data.items() if v.get('parent_id') == parent_filter}\<close>\<close>
  "filter_parent level_data p = filter (\<lambda>(k, v). parent_id v = Some p) level_data"

fun best_match_loop ::
  "texts \<Rightarrow> level_data \<Rightarrow> int option \<Rightarrow> source list \<Rightarrow>
   (int \<times> real \<times> source) option \<Rightarrow> real \<Rightarrow> (int \<times> real \<times> source) option" where
  "best_match_loop t level_data parent_filter [] best best_score = best"
| "best_match_loop t level_data parent_filter (src # srcs) best best_score =
     (let text = texts_get t src in
      if text = [] then best_match_loop t level_data parent_filter srcs best best_score
      else
        (let filtered_data =
               (case parent_filter of None \<Rightarrow> level_data | Some p \<Rightarrow> filter_parent level_data p)
         in case find_match_in_level text filtered_data src of
              None \<Rightarrow> best_match_loop t level_data parent_filter srcs best best_score
            | Some (k, score) \<Rightarrow>
                (let score' = (if src = Location then score + 1/100 else score) in
                 if score' > best_score
                 then best_match_loop t level_data parent_filter srcs (Some (k, score', src)) score'
                 else best_match_loop t level_data parent_filter srcs best best_score)))"

definition find_best_match_in_level ::
  "texts \<Rightarrow> level_data \<Rightarrow> int option \<Rightarrow> (int \<times> real \<times> source) option" where
  \<comment> \<open>location first, for the tie-breaker\<close>
  "find_best_match_in_level t level_data parent_filter =
     best_match_loop t level_data parent_filter [Location, Title, Details, Description] None 0"

text \<open>The local function \<^verbatim>\<open>find_match\<close> of \<^verbatim>\<open>match_listing_with_texts\<close>.\<close>

definition source_priority :: "source \<Rightarrow> real" where
  "source_priority s =
     (case s of Location \<Rightarrow> 4 | Title \<Rightarrow> 3 | Details \<Rightarrow> 2 | Description \<Rightarrow> 1)"

definition all_variants :: "loc_info \<Rightarrow> string list" where
  "all_variants info = filter (\<lambda>v. v \<noteq> []) ([normalized info, no_prefix info] @ alt_names info)"

definition variant_score :: "string \<Rightarrow> loc_info \<Rightarrow> real" where
  \<comment> \<open>the raw score of one node in one text; 0 when no variant matches as a whole word\<close>
  "variant_score text info =
     (if \<not> list_ex (\<lambda>v. re_search_word v text) (all_variants info) then 0
      else if re_search_word (normalized info) text then 1
      else if no_prefix info \<noteq> [] \<and> re_search_word (no_prefix info) text then 95/100
      else if alt_word_match (alt_names info) text then 9/10
      else 0)"

fun find_match_sources ::
  "texts \<Rightarrow> int \<Rightarrow> loc_info \<Rightarrow> source list \<Rightarrow>
   (int \<times> real \<times> source) option \<times> real \<Rightarrow> (int \<times> real \<times> source) option \<times> real" where
  "find_match_sources t k info [] acc = acc"
| "find_match_sources t k info (src # srcs) (best, best_score) =
     (let text = texts_get t src in
      if text = [] then find_match_sources t k info srcs (best, best_score)
      else
        (let score = variant_score text info in
         if score > 0 then
           (let adjusted = score + source_priority src * (1/1000) in
            if adjusted > best_score
            then find_match_sources t k info srcs (Some (k, score, src), adjusted)
            else find_match_sources t k info srcs (best, best_score))
         else find_match_sources t k info srcs (best, best_score)))"

definition truthy_id :: "int option \<Rightarrow> bool" where
  \<comment> \<open>Python truth of an optional integer: neither \<^verbatim>\<open>None\<close> nor 0\<close>
  "truthy_id i = (case i of None \<Rightarrow> False | Some n \<Rightarrow> n \<noteq> 0)"

fun find_match_nodes ::
  "texts \<Rightarrow> int option \<Rightarrow> level_data \<Rightarrow>
   (int \<times> real \<times> source) option \<times> real \<Rightarrow> (int \<times> real \<times> source) option \<times> real" where
  "find_match_nodes t parent_filter [] acc = acc"
| "find_match_nodes t parent_filter ((k, info) # rest) acc =
     (if truthy_id parent_filter \<and> parent_id info \<noteq> parent_filter
      then find_match_nodes t parent_filter rest acc
      else find_match_nodes t parent_filter rest (find_match_sources t k info texts_items acc))"

definition find_match :: "texts \<Rightarrow> level_data \<Rightarrow> int option \<Rightarrow> (int \<times> real \<times> source) option" where
  "find_match t level_data parent_filter = fst (find_match_nodes t parent_filter level_data (None, 0))"

subsection \<open>The hierarchy store and neighbourhood discovery\<close>

text \<open>
  The store is outside the program. Its answers to the insert requests are an input of
  the model (\<open>replies\<close>, consumed one per request); the requests sent and the staging
  records written are logged. A request with no answer left raises, as a timeout does.
\<close>

datatype insert_reply =
    Created "int option"  \<comment> \<open>status 200 or 201; the id of the returned row, \<open>None\<close> when the
                               returned object has no id\<close>
  | Conflict              \<comment> \<open>status 409\<close>
  | Rejected              \<comment> \<open>any other status\<close>
  | Raised                \<comment> \<open>the request or the decoding of its answer raised\<close>

record staging_record =
  external_id :: int
  candidate_l2_name :: string
  candidate_l2_normalized :: string
  parent_l3_id :: int
  extracted_from :: source

record store =
  replies :: "insert_reply list"
  posted :: "int list"
  staged :: "staging_record list"

definition next_l2_id :: "groups \<Rightarrow> int" where
  \<comment> \<open>\<^verbatim>\<open>max(l2_data.keys(), default=0) + 1\<close>\<close>
  "next_l2_id g = (if l2 g = [] then 0 else Max (set (map fst (l2 g)))) + 1"

definition dict_set :: "level_data \<Rightarrow> int \<Rightarrow> loc_info \<Rightarrow> level_data" where
  \<comment> \<open>\<^verbatim>\<open>d[k] = v\<close>: an existing key keeps its place, a new key goes last\<close>
  "dict_set d k v =
     (if k \<in> set (map fst d) then map (\<lambda>(k', v'). if k' = k then (k', v) else (k', v')) d
      else d @ [(k, v)])"

definition new_l2_entry :: "int \<Rightarrow> string \<Rightarrow> string \<Rightarrow> real \<Rightarrow> real \<Rightarrow> int \<Rightarrow> loc_info" where
  "new_l2_entry actual_id display_name normalized_name lat lng l3_id =
     \<lparr>loc_id = actual_id, name = display_name, normalized = normalized_name,
      no_prefix = remove_location_prefixes display_name, alt_names = [],
      parent_id = Some l3_id, latitude = Some lat, longitude = Some lng\<rparr>"

fun insert_loop ::
  "nat \<Rightarrow> int \<Rightarrow> string \<Rightarrow> string \<Rightarrow> real \<Rightarrow> real \<Rightarrow> int \<Rightarrow> groups \<Rightarrow> store \<Rightarrow>
   int option \<times> groups \<times> store" where
  "insert_loop 0 new_id display_name normalized_name lat lng l3_id g st = (None, g, st)"
| "insert_loop (Suc n) new_id display_name normalized_name lat lng l3_id g st =
     (let reply = (case replies st of [] \<Rightarrow> Raised | r # _ \<Rightarrow> r);
          st' = st\<lparr>replies := tl (replies st), posted := posted st @ [new_id]\<rparr>
      in case reply of
           Created returned \<Rightarrow>
             (let actual_id = (case returned of Some i \<Rightarrow> i | None \<Rightarrow> new_id)
              in (Some actual_id,
                  g\<lparr>l2 := dict_set (l2 g) actual_id
                            (new_l2_entry actual_id display_name normalized_name lat lng l3_id)\<rparr>,
                  st'))
         | Conflict \<Rightarrow> insert_loop n (new_id + 1) display_name normalized_name lat lng l3_id g st'
         | Rejected \<Rightarrow> (None, g, st')
         | Raised \<Rightarrow> (None, g, st'))"

definition max_retries :: nat where
  "max_retries = 3"

definition insert_auto_l2 ::
  "string \<Rightarrow> string \<Rightarrow> real \<Rightarrow> real \<Rightarrow> int \<Rightarrow> groups \<Rightarrow> store \<Rightarrow> int option \<times> groups \<times> store" where
  "insert_auto_l2 display_name normalized_name lat lng l3_id g st =
     insert_loop max_retries (next_l2_id g) display_name normalized_name lat lng l3_id g st"

definition stage_l2_candidate ::
  "string \<Rightarrow> string \<Rightarrow> int \<Rightarrow> source \<Rightarrow> int \<Rightarrow> store \<Rightarrow> store" where
  \<comment> \<open>the caller ignores the outcome of the request; an exception is swallowed\<close>
  "stage_l2_candidate display_name normalized_name l3_id source_field ext st =
     st\<lparr>staged := staged st @
        [\<lparr>external_id = ext, candidate_l2_name = display_name,
          candidate_l2_normalized = normalized_name, parent_l3_id = l3_id,
          extracted_from = source_field\<rparr>]\<rparr>"

definition L2_DEDUP_RADIUS_KM :: real where
  "L2_DEDUP_RADIUS_KM = 1"

definition same_name :: "string \<Rightarrow> string \<Rightarrow> loc_info \<Rightarrow> bool" where
  "same_name candidate_normalized candidate_stripped info \<longleftrightarrow>
     candidate_normalized = normalized info \<or> candidate_stripped = no_prefix info \<or>
     candidate_normalized = no_prefix info \<or> candidate_stripped = normalized info"

fun duplicate_loop ::
  "string \<Rightarrow> string \<Rightarrow> real \<Rightarrow> real \<Rightarrow> int \<Rightarrow> level_data \<Rightarrow> error + int option" where
  "duplicate_loop cn cs lat lng l3_id [] = Inr None"
| "duplicate_loop cn cs lat lng l3_id ((k, info) # rest) =
     (if parent_id info \<noteq> Some l3_id then duplicate_loop cn cs lat lng l3_id rest
      else if same_name cn cs info then Inr (Some k)
      else
        (case (latitude info, longitude info) of
           (Some l2_lat, Some l2_lng) \<Rightarrow>
             (case haversine_distance lat lng l2_lat l2_lng of
                Inl e \<Rightarrow> Inl e
              | Inr distance \<Rightarrow>
                  if distance < L2_DEDUP_RADIUS_KM then Inr (Some k)
                  else duplicate_loop cn cs lat lng l3_id rest)
         | _ \<Rightarrow> duplicate_loop cn cs lat lng l3_id rest))"

definition check_l2_duplicate ::
  "string \<Rightarrow> real \<Rightarrow> real \<Rightarrow> int \<Rightarrow> groups \<Rightarrow> error + int option" where
  "check_l2_duplicate candidate_normalized lat lng l3_id g =
     duplicate_loop candidate_normalized (remove_location_prefixes candidate_normalized)
       lat lng l3_id (l2 g)"

text \<open>
  \<^verbatim>\<open>extract_colonia_candidate\<close> tries the title and the location first, then the details
  and the description, and returns the first candidate with the field it came from. The
  scan of one text for a prefix and a name (\<^verbatim>\<open>_find_in_text\<close>, a function of the text
  and of the fixed names of levels 3 to 5) is a parameter of the model: \<open>scan text\<close> is
  the display name and the normalised name it extracts, if any.
\<close>

type_synonym scanner = "string \<Rightarrow> (string \<times> string) option"

fun extract_loop :: "scanner \<Rightarrow> texts \<Rightarrow> source list \<Rightarrow> (string \<times> string \<times> source) option" where
  "extract_loop scan t [] = None"
| "extract_loop scan t (src # srcs) =
     (let text = texts_get t src in
      case (if text = [] then None else scan text) of
        Some (display_name, normalized_name) \<Rightarrow> Some (display_name, normalized_name, src)
      | None \<Rightarrow> extract_loop scan t srcs)"

definition extract_colonia_candidate :: "scanner \<Rightarrow> texts \<Rightarrow> (string \<times> string \<times> source) option" where
  "extract_colonia_candidate scan t = extract_loop scan t [Title, Location, Details, Description]"

definition try_create_l2_from_listing ::
  "scanner \<Rightarrow> texts \<Rightarrow> real \<Rightarrow> real \<Rightarrow> int \<Rightarrow> groups \<Rightarrow> int option \<Rightarrow> store \<Rightarrow>
   error + (int option \<times> groups \<times> store)" where
  "try_create_l2_from_listing scan t lat lng l3_id g ext st =
     (case extract_colonia_candidate scan t of
        None \<Rightarrow> Inr (None, g, st)
      | Some (display_name, normalized_name, source_field) \<Rightarrow>
          (case check_l2_duplicate normalized_name lat lng l3_id g of
             Inl e \<Rightarrow> Inl e
           | Inr existing_id \<Rightarrow>
               if truthy_id existing_id then Inr (existing_id, g, st)
               else if source_field = Title \<or> source_field = Location
               then Inr (insert_auto_l2 display_name normalized_name lat lng l3_id g st)
               else
                 (case ext of
                    Some e \<Rightarrow>
                      if e \<noteq> 0
                      then Inr (None, g,
                             stage_l2_candidate display_name normalized_name l3_id source_field e st)
                      else Inr (None, g, st)
                  | None \<Rightarrow> Inr (None, g, st))))"

subsection \<open>Rounding\<close>

definition round_half_even :: "real \<Rightarrow> int" where
  "round_half_even x =
     (let f = \<lfloor>x\<rfloor>; r = x - of_int f in
      if r < 1/2 then f else if r > 1/2 then f + 1 else if even f then f else f + 1)"

definition py_round2 :: "real \<Rightarrow> real" where
  \<comment> \<open>\<^verbatim>\<open>round(x, 2)\<close>\<close>
  "py_round2 x = of_int (round_half_even (x * 100)) / 100"

subsection \<open>Matching by coordinates\<close>

text \<open>
  Every call of \<^verbatim>\<open>match_by_coordinates\<close> in the repository leaves the two radii at
  their defaults.
\<close>

definition max_l2_km :: real where
  "max_l2_km = 3"

definition max_l3_km :: real where
  "max_l3_km = 20"

definition closer :: "real \<Rightarrow> (int \<times> real) option \<Rightarrow> bool" where
  \<comment> \<open>\<^verbatim>\<open>dist < best_dist\<close>, the best distance starting at infinity\<close>
  "closer d best = (case best of None \<Rightarrow> True | Some (_, best_dist) \<Rightarrow> d < best_dist)"

fun nearest_l2_loop ::
  "real \<Rightarrow> real \<Rightarrow> level_data \<Rightarrow> (int \<times> real) option \<Rightarrow> error + (int \<times> real) option" where
  "nearest_l2_loop lat lng [] best = Inr best"
| "nearest_l2_loop lat lng ((k, info) # rest) best =
     (case (latitude info, longitude info) of
        (Some l2_lat, Some l2_lng) \<Rightarrow>
          (case haversine_distance lat lng l2_lat l2_lng of
             Inl e \<Rightarrow> Inl e
           | Inr d \<Rightarrow>
               if closer d best then nearest_l2_loop lat lng rest (Some (k, d))
               else nearest_l2_loop lat lng rest best)
      | _ \<Rightarrow> nearest_l2_loop lat lng rest best)"

type_synonym centroids = "(int \<times> real \<times> real \<times> nat) list"

fun centroid_add :: "centroids \<Rightarrow> int \<Rightarrow> real \<Rightarrow> real \<Rightarrow> centroids" where
  "centroid_add [] p la lo = [(p, 0 + la, 0 + lo, 0 + 1)]"
| "centroid_add ((q, lat_sum, lng_sum, n) # cs) p la lo =
     (if q = p then (q, lat_sum + la, lng_sum + lo, n + 1) # cs
      else (q, lat_sum, lng_sum, n) # centroid_add cs p la lo)"

fun centroid_loop :: "level_data \<Rightarrow> centroids \<Rightarrow> centroids" where
  "centroid_loop [] cs = cs"
| "centroid_loop ((k, info) # rest) cs =
     (case (latitude info, longitude info, parent_id info) of
        (Some l2_lat, Some l2_lng, Some parent_l3) \<Rightarrow>
          centroid_loop rest (centroid_add cs parent_l3 l2_lat l2_lng)
      | _ \<Rightarrow> centroid_loop rest cs)"

fun nearest_l3_loop ::
  "real \<Rightarrow> real \<Rightarrow> centroids \<Rightarrow> (int \<times> real) option \<Rightarrow> error + (int \<times> real) option" where
  "nearest_l3_loop lat lng [] best = Inr best"
| "nearest_l3_loop lat lng ((l3_id, lat_sum, lng_sum, n) # rest) best =
     (if n = 0 then nearest_l3_loop lat lng rest best
      else
        (case haversine_distance lat lng (lat_sum / real n) (lng_sum / real n) of
           Inl e \<Rightarrow> Inl e
         | Inr d \<Rightarrow>
             if closer d best then nearest_l3_loop lat lng rest (Some (l3_id, d))
             else nearest_l3_loop lat lng rest best))"

definition coordinate_result :: "nat \<Rightarrow> real \<Rightarrow> loc_ids \<Rightarrow> match_result" where
  "coordinate_result level score chain =
     update_chain
       (empty_result\<lparr>matchLevel := Some level, matchScore := Some (py_round2 score),
                     matchSource := Some Coordinates\<rparr>)
       chain"

definition tier3 ::
  "scanner \<Rightarrow> texts option \<Rightarrow> real \<Rightarrow> real \<Rightarrow> int \<Rightarrow> groups \<Rightarrow> int option \<Rightarrow> store \<Rightarrow>
   match_result \<Rightarrow> error + (match_result \<times> groups \<times> store)" where
  \<comment> \<open>Tier 3 of \<^verbatim>\<open>match_by_coordinates\<close>: try to create a level-2 node from the text\<close>
  "tier3 scan t lat lng best_l3_id g ext st result =
     (case t of
        None \<Rightarrow> Inr (result, g, st)
      | Some tx \<Rightarrow>
          (case try_create_l2_from_listing scan tx lat lng best_l3_id g ext st of
             Inl e \<Rightarrow> Inl e
           | Inr (auto_l2_id, g', st') \<Rightarrow>
               if truthy_id auto_l2_id
               then Inr (result\<lparr>locGroup2Id := auto_l2_id, matchLevel := Some 2,
                                 matchSource := Some Coordinates_auto_l2\<rparr>, g', st')
               else Inr (result, g', st')))"

definition tier2 ::
  "scanner \<Rightarrow> texts option \<Rightarrow> real \<Rightarrow> real \<Rightarrow> groups \<Rightarrow> int option \<Rightarrow> store \<Rightarrow>
   error + (match_result option \<times> groups \<times> store)" where
  \<comment> \<open>Tier 2 of \<^verbatim>\<open>match_by_coordinates\<close>: the nearest centroid of a municipality\<close>
  "tier2 scan t lat lng g ext st =
     (case nearest_l3_loop lat lng (centroid_loop (l2 g) []) None of
        Inl e \<Rightarrow> Inl e
      | Inr None \<Rightarrow> Inr (None, g, st)
      | Inr (Some (best_l3_id, best_l3_dist)) \<Rightarrow>
          if best_l3_dist \<le> max_l3_km then
            (case tier3 scan t lat lng best_l3_id g ext st
                    (coordinate_result 3 (max (4/10) (9/10 - best_l3_dist / max_l3_km))
                       (get_parent_chain best_l3_id 3 g)) of
               Inl e \<Rightarrow> Inl e
             | Inr (result, g', st') \<Rightarrow> Inr (Some result, g', st'))
          else Inr (None, g, st))"

definition match_by_coordinates ::
  "scanner \<Rightarrow> real \<Rightarrow> real \<Rightarrow> groups \<Rightarrow> texts option \<Rightarrow> int option \<Rightarrow> store \<Rightarrow>
   error + (match_result option \<times> groups \<times> store)" where
  "match_by_coordinates scan lat lng g t ext st =
     (if lat = 0 \<or> lng = 0 then Inr (None, g, st)
      else if l2 g = [] then Inr (None, g, st)
      else
        (case nearest_l2_loop lat lng (l2 g) None of
           Inl e \<Rightarrow> Inl e
         | Inr best \<Rightarrow>
             (case (case best of
                      None \<Rightarrow> None
                    | Some (best_l2_id, best_l2_dist) \<Rightarrow>
                        if best_l2_dist \<le> max_l2_km then Some (best_l2_id, best_l2_dist) else None) of
                Some (best_l2_id, best_l2_dist) \<Rightarrow>
                  Inr (Some (coordinate_result 2 (max (5/10) (1 - best_l2_dist / max_l2_km))
                               (get_parent_chain best_l2_id 2 g)), g, st)
              | None \<Rightarrow> tier2 scan t lat lng g ext st)))"

subsection \<open>The decision procedure for one listing\<close>

text \<open>
  \<^verbatim>\<open>match_listing\<close> and \<^verbatim>\<open>match_listing_with_texts\<close> repeat the same blocks, the
  first with \<^verbatim>\<open>find_best_match_in_level\<close> and the second with its local
  \<^verbatim>\<open>find_match\<close> (and its local copy of \<^verbatim>\<open>get_parent_chain\<close>). The model states each
  block once, with the search function as the argument \<open>finder\<close>.
\<close>

type_synonym finder = "level_data \<Rightarrow> int option \<Rightarrow> (int \<times> real \<times> source) option"

definition MIN_SCORE :: real where
  "MIN_SCORE = 9/10"

definition truthy_coord :: "real option \<Rightarrow> bool" where
  "truthy_coord x = (case x of None \<Rightarrow> False | Some v \<Rightarrow> v \<noteq> 0)"

definition has_coordinates :: "real option \<Rightarrow> real option \<Rightarrow> bool" where
  \<comment> \<open>\<^verbatim>\<open>lat and lng\<close>: a coordinate that is missing, \<^verbatim>\<open>None\<close> or 0 is false\<close>
  "has_coordinates lat lng \<longleftrightarrow> truthy_coord lat \<and> truthy_coord lng"

definition level_result :: "nat \<Rightarrow> real \<Rightarrow> match_source \<Rightarrow> loc_ids \<Rightarrow> match_result \<Rightarrow> match_result" where
  \<comment> \<open>\<^verbatim>\<open>result.update(chain)\<close>, then level, rounded score and source\<close>
  "level_result level score src chain result =
     (update_chain result chain)
       \<lparr>matchLevel := Some level, matchScore := Some (py_round2 score), matchSource := Some src\<rparr>"

definition upgrade_l2 :: "(int \<times> real \<times> source) option \<Rightarrow> match_result \<Rightarrow> match_result" where
  \<comment> \<open>a level-2 match under the municipality that clears the threshold\<close>
  "upgrade_l2 l2_match result =
     (case l2_match of
        None \<Rightarrow> result
      | Some (l2_id, l2_score, l2_source) \<Rightarrow>
          if l2_score \<ge> MIN_SCORE
          then result\<lparr>locGroup2Id := Some l2_id, matchLevel := Some 2,
                      matchScore := Some (py_round2 l2_score), matchSource := Some (Field l2_source)\<rparr>
          else result)"

definition auto_l2 ::
  "scanner \<Rightarrow> texts \<Rightarrow> real option \<Rightarrow> real option \<Rightarrow> int \<Rightarrow> groups \<Rightarrow> int option \<Rightarrow> store \<Rightarrow>
   match_result \<Rightarrow> error + (match_result \<times> groups \<times> store)" where
  \<comment> \<open>no level-2 match but coordinates: try to create the neighbourhood\<close>
  "auto_l2 scan t lat lng l3_id g ext st result =
     (if locGroup2Id result = None \<and> has_coordinates lat lng then
        (case try_create_l2_from_listing scan t (the lat) (the lng) l3_id g ext st of
           Inl e \<Rightarrow> Inl e
         | Inr (auto_l2_id, g', st') \<Rightarrow>
             if truthy_id auto_l2_id
             then Inr (result\<lparr>locGroup2Id := auto_l2_id, matchLevel := Some 2,
                               matchSource := Some Text_auto_l2\<rparr>, g', st')
             else Inr (result, g', st'))
      else Inr (result, g, st))"

definition municipality_step ::
  "finder \<Rightarrow> scanner \<Rightarrow> texts \<Rightarrow> real option \<Rightarrow> real option \<Rightarrow> int option \<Rightarrow> groups \<Rightarrow> store \<Rightarrow>
   int \<Rightarrow> real \<Rightarrow> source \<Rightarrow> error + (match_result \<times> groups \<times> store)" where
  \<comment> \<open>Step 1 once a level-3 match has cleared the threshold\<close>
  "municipality_step search scan t lat lng ext g st l3_id l3_score l3_source =
     auto_l2 scan t lat lng l3_id g ext st
       (upgrade_l2 (search (l2 g) (Some l3_id))
          (level_result 3 l3_score (Field l3_source) (get_parent_chain l3_id 3 g) empty_result))"

fun first_text_with :: "string \<Rightarrow> texts \<Rightarrow> source list \<Rightarrow> source option" where
  "first_text_with l3_name t [] = None"
| "first_text_with l3_name t (src # srcs) =
     (let txt = texts_get t src in
      if txt = [] then first_text_with l3_name t srcs
      else if re_search_word l3_name txt then Some src
      else first_text_with l3_name t srcs)"

fun disambiguate_loop :: "string \<Rightarrow> texts \<Rightarrow> level_data \<Rightarrow> (int \<times> source) option" where
  "disambiguate_loop dept_name t [] = None"
| "disambiguate_loop dept_name t ((l3_id_check, l3_info) # rest) =
     (if str_in dept_name (normalized l3_info) \<and> dept_name \<noteq> normalized l3_info then
        (case first_text_with (normalized l3_info) t texts_items of
           Some src \<Rightarrow> Some (l3_id_check, src)
         | None \<Rightarrow> disambiguate_loop dept_name t rest)
      else disambiguate_loop dept_name t rest)"

definition disambiguate :: "groups \<Rightarrow> texts \<Rightarrow> int \<Rightarrow> (int \<times> source) option" where
  "disambiguate g t l5_id =
     (let dept_name = (case map_of (l5 g) l5_id of None \<Rightarrow> [] | Some info \<Rightarrow> normalized info)
      in if dept_name \<noteq> [] then disambiguate_loop dept_name t (l3 g) else None)"

definition disambiguated_result ::
  "finder \<Rightarrow> groups \<Rightarrow> real \<Rightarrow> int \<Rightarrow> source \<Rightarrow> match_result" where
  "disambiguated_result search g l5_score l3_id_check src =
     upgrade_l2 (search (l2 g) (Some l3_id_check))
       (level_result 3 l5_score (Field src) (get_parent_chain l3_id_check 3 g) empty_result)"

definition member_opt :: "int option \<Rightarrow> int list \<Rightarrow> bool" where
  \<comment> \<open>\<^verbatim>\<open>info.get('parent_id') in ids\<close>\<close>
  "member_opt p ids = (case p of None \<Rightarrow> False | Some q \<Rightarrow> q \<in> set ids)"

definition get_ids_under_department :: "groups \<Rightarrow> nat \<Rightarrow> int \<Rightarrow> int list" where
  "get_ids_under_department g level dept_id =
     (let l4_ids = map fst (filter (\<lambda>(lid, info). parent_id info = Some dept_id) (l4 g));
          l3_ids = map fst (filter (\<lambda>(lid, info). member_opt (parent_id info) l4_ids) (l3 g));
          l2_ids = map fst (filter (\<lambda>(lid, info). member_opt (parent_id info) l3_ids) (l2 g))
      in if level = 4 then l4_ids else if level = 3 then l3_ids
         else if level = 2 then l2_ids else [])"

definition filter_ids :: "level_data \<Rightarrow> int list \<Rightarrow> level_data" where
  \<comment> \<open>\<^verbatim>\<open>{k: v for k, v in groups.get(level, {}).items() if k in valid_ids}\<close>\<close>
  "filter_ids level_data valid_ids = filter (\<lambda>(k, v). k \<in> set valid_ids) level_data"

text \<open>The search of the lower levels under a department, as \<^verbatim>\<open>match_listing\<close> writes it.\<close>

fun lower_loop ::
  "texts \<Rightarrow> groups \<Rightarrow> int \<Rightarrow> nat list \<Rightarrow> (int \<times> real \<times> source) option \<times> nat \<times> real \<Rightarrow>
   (int \<times> real \<times> source) option \<times> nat \<times> real" where
  "lower_loop t g l5_id [] acc = acc"
| "lower_loop t g l5_id (level # levels) (best_lower, best_lower_level, best_lower_score) =
     (let valid_ids = get_ids_under_department g level l5_id in
      if valid_ids = [] then
        lower_loop t g l5_id levels (best_lower, best_lower_level, best_lower_score)
      else
        (let filtered_data = filter_ids (groups_get g level) valid_ids in
         if filtered_data = [] then
           lower_loop t g l5_id levels (best_lower, best_lower_level, best_lower_score)
         else
           (case find_best_match_in_level t filtered_data None of
              None \<Rightarrow> lower_loop t g l5_id levels (best_lower, best_lower_level, best_lower_score)
            | Some (k, score, src) \<Rightarrow>
                if score \<ge> MIN_SCORE \<and> level < best_lower_level
                then lower_loop t g l5_id levels (Some (k, score, src), level, score)
                else if score > best_lower_score \<and> level = best_lower_level
                then lower_loop t g l5_id levels (Some (k, score, src), best_lower_level, score)
                else lower_loop t g l5_id levels (best_lower, best_lower_level, best_lower_score))))"

text \<open>The same search as \<^verbatim>\<open>match_listing_with_texts\<close> writes it.\<close>

fun lower_loop_texts ::
  "texts \<Rightarrow> groups \<Rightarrow> int \<Rightarrow> nat list \<Rightarrow> (int \<times> real \<times> source) option \<times> nat \<Rightarrow>
   (int \<times> real \<times> source) option \<times> nat" where
  "lower_loop_texts t g l5_id [] acc = acc"
| "lower_loop_texts t g l5_id (level # levels) (best_lower, best_lower_level) =
     (let valid_ids = get_ids_under_department g level l5_id in
      if valid_ids = [] then lower_loop_texts t g l5_id levels (best_lower, best_lower_level)
      else
        (case find_match t (filter_ids (groups_get g level) valid_ids) None of
           None \<Rightarrow> lower_loop_texts t g l5_id levels (best_lower, best_lower_level)
         | Some (k, score, src) \<Rightarrow>
             if score \<ge> MIN_SCORE \<and> level < best_lower_level
             then lower_loop_texts t g l5_id levels (Some (k, score, src), level)
             else lower_loop_texts t g l5_id levels (best_lower, best_lower_level)))"

definition department_result ::
  "groups \<Rightarrow> int \<Rightarrow> real \<Rightarrow> source \<Rightarrow> (int \<times> real \<times> source) option \<Rightarrow> nat \<Rightarrow> match_result" where
  \<comment> \<open>the department is accepted, then replaced by the best lower match, if any\<close>
  "department_result g l5_id l5_score l5_source best_lower best_lower_level =
     (let result = empty_result\<lparr>locGroup5Id := Some l5_id, matchLevel := Some 5,
                                 matchScore := Some (py_round2 l5_score),
                                 matchSource := Some (Field l5_source)\<rparr>
      in case best_lower of
           None \<Rightarrow> result
         | Some (k, score, src) \<Rightarrow>
             level_result best_lower_level score (Field src)
               (get_parent_chain k best_lower_level g) result)"

definition last_resort :: "finder \<Rightarrow> groups \<Rightarrow> match_result option" where
  \<comment> \<open>no level-3 and no level-5 match: level 2 directly\<close>
  "last_resort search g =
     (case search (l2 g) None of
        None \<Rightarrow> None
      | Some (l2_id, l2_score, l2_source) \<Rightarrow>
          if l2_score \<ge> MIN_SCORE
          then Some (level_result 2 l2_score (Field l2_source) (get_parent_chain l2_id 2 g)
                       empty_result)
          else None)"

definition cleared :: "(int \<times> real \<times> source) option \<Rightarrow> (int \<times> real \<times> source) option" where
  \<comment> \<open>\<^verbatim>\<open>if l3_match: ... if l3_score >= MIN_SCORE:\<close>\<close>
  "cleared m =
     (case m of None \<Rightarrow> None
      | Some (k, score, src) \<Rightarrow> if score \<ge> MIN_SCORE then Some (k, score, src) else None)"

definition match_listing_text ::
  "scanner \<Rightarrow> texts \<Rightarrow> real option \<Rightarrow> real option \<Rightarrow> int option \<Rightarrow> groups \<Rightarrow> store \<Rightarrow>
   error + (match_result option \<times> groups \<times> store)" where
  \<comment> \<open>\<^verbatim>\<open>match_listing\<close> after the coordinate matcher\<close>
  "match_listing_text scan t lat lng ext g st =
     (case cleared (find_best_match_in_level t (l3 g) None) of
        Some (l3_id, l3_score, l3_source) \<Rightarrow>
          (case municipality_step (find_best_match_in_level t) scan t lat lng ext g st
                  l3_id l3_score l3_source of
             Inl e \<Rightarrow> Inl e
           | Inr (result, g', st') \<Rightarrow> Inr (Some result, g', st'))
      | None \<Rightarrow>
          (case find_best_match_in_level t (l5 g) None of
             Some (l5_id, l5_score, l5_source) \<Rightarrow>
               (case disambiguate g t l5_id of
                  Some (l3_id_check, src) \<Rightarrow>
                    Inr (Some (disambiguated_result (find_best_match_in_level t) g l5_score
                                 l3_id_check src), g, st)
                | None \<Rightarrow>
                    (case lower_loop t g l5_id [2, 3, 4] (None, 5, 0) of
                       (best_lower, best_lower_level, best_lower_score) \<Rightarrow>
                         Inr (Some (department_result g l5_id l5_score l5_source
                                      best_lower best_lower_level), g, st)))
           | None \<Rightarrow> Inr (last_resort (find_best_match_in_level t) g, g, st)))"

definition match_listing ::
  "scanner \<Rightarrow> texts \<Rightarrow> real option \<Rightarrow> real option \<Rightarrow> int option \<Rightarrow> groups \<Rightarrow> store \<Rightarrow>
   error + (match_result option \<times> groups \<times> store)" where
  \<comment> \<open>\<open>None\<close> is the \<^verbatim>\<open>None\<close> the function returns when nothing matches\<close>
  "match_listing scan t lat lng ext g st =
     (if has_coordinates lat lng then
        (case match_by_coordinates scan (the lat) (the lng) g (Some t) ext st of
           Inl e \<Rightarrow> Inl e
         | Inr (Some coord_result, g', st') \<Rightarrow> Inr (Some coord_result, g', st')
         | Inr (None, g', st') \<Rightarrow> match_listing_text scan t lat lng ext g' st')
      else match_listing_text scan t lat lng ext g st)"

definition or_empty :: "match_result option \<Rightarrow> match_result" where
  \<comment> \<open>\<^verbatim>\<open>match_listing_with_texts\<close> ends with \<^verbatim>\<open>return result\<close>, the record of nulls\<close>
  "or_empty r = (case r of None \<Rightarrow> empty_result | Some x \<Rightarrow> x)"

definition match_listing_with_texts_text ::
  "scanner \<Rightarrow> texts \<Rightarrow> real option \<Rightarrow> real option \<Rightarrow> int option \<Rightarrow> groups \<Rightarrow> store \<Rightarrow>
   error + (match_result \<times> groups \<times> store)" where
  \<comment> \<open>\<^verbatim>\<open>match_listing_with_texts\<close> after the coordinate matcher\<close>
  "match_listing_with_texts_text scan t lat lng ext g st =
     (case cleared (find_match t (l3 g) None) of
        Some (l3_id, l3_score, l3_source) \<Rightarrow>
          municipality_step (find_match t) scan t lat lng ext g st l3_id l3_score l3_source
      | None \<Rightarrow>
          (case find_match t (l5 g) None of
             Some (l5_id, l5_score, l5_source) \<Rightarrow>
               (case disambiguate g t l5_id of
                  Some (l3_id_check, src) \<Rightarrow>
                    Inr (disambiguated_result (find_match t) g l5_score l3_id_check src, g, st)
                | None \<Rightarrow>
                    (case lower_loop_texts t g l5_id [2, 3, 4] (None, 5) of
                       (best_lower, best_lower_level) \<Rightarrow>
                         Inr (department_result g l5_id l5_score l5_source
                                best_lower best_lower_level, g, st)))
           | None \<Rightarrow> Inr (or_empty (last_resort (find_match t) g), g, st)))"

definition match_listing_with_texts ::
  "scanner \<Rightarrow> texts \<Rightarrow> groups \<Rightarrow> real option \<Rightarrow> real option \<Rightarrow> int option \<Rightarrow> store \<Rightarrow>
   error + (match_result \<times> groups \<times> store)" where
  "match_listing_with_texts scan t g lat lng ext st =
     (if has_coordinates lat lng then
        (case match_by_coordinates scan (the lat) (the lng) g (Some t) ext st of
           Inl e \<Rightarrow> Inl e
         | Inr (Some coord_result, g', st') \<Rightarrow> Inr (coord_result, g', st')
         | Inr (None, g', st') \<Rightarrow> match_listing_with_texts_text scan t lat lng ext g' st')
      else match_listing_with_texts_text scan t lat lng ext g st)"

subsection \<open>Predicates used in the statements\<close>

definition no_variant_match :: "texts \<Rightarrow> level_data \<Rightarrow> bool" where
  \<comment> \<open>no name of a node of the level (normalised, without prefix, alternative) occurs as a
      whole word in any of the four texts\<close>
  "no_variant_match t level_data =
     list_all (\<lambda>(k, info).
        list_all (\<lambda>src. list_all (\<lambda>v. \<not> re_search_word v (texts_get t src)) (all_variants info))
          texts_items) level_data"

definition farther :: "real \<Rightarrow> real \<Rightarrow> loc_info \<Rightarrow> bool" where
  \<comment> \<open>a node with coordinates lies at a positive distance from the point (computed without
      a domain error); a node without coordinates is no candidate\<close>
  "farther lat lng info =
     (case (latitude info, longitude info) of
        (Some la, Some lo) \<Rightarrow>
          (case haversine_distance lat lng la lo of Inl e \<Rightarrow> False | Inr d \<Rightarrow> 0 < d)
      | _ \<Rightarrow> True)"

definition exact_result :: "loc_ids \<Rightarrow> match_result" where
  \<comment> \<open>the result of a coordinate match at distance 0\<close>
  "exact_result chain =
     \<lparr>locGroup2Id = locGroup2Id chain, locGroup3Id = locGroup3Id chain,
      locGroup4Id = locGroup4Id chain, locGroup5Id = locGroup5Id chain,
      matchLevel = Some 2, matchScore = Some 1, matchSource = Some Coordinates\<rparr>"

definition after_conflicts :: "groups \<Rightarrow> store \<Rightarrow> store" where
  \<comment> \<open>the store after three insert requests were answered: three ids posted, nothing staged\<close>
  "after_conflicts g st =
     st\<lparr>replies := drop 3 (replies st),
        posted := posted st @ [next_l2_id g, next_l2_id g + 1, next_l2_id g + 2]\<rparr>"

definition resolved_to :: "int \<Rightarrow> groups \<Rightarrow> match_result \<Rightarrow> bool" where
  \<comment> \<open>the result names the municipality and its stored parents, at level 3 or, with a
      neighbourhood of it, at level 2\<close>
  "resolved_to m g r \<longleftrightarrow>
     locGroup3Id r = Some m \<and>
     locGroup4Id r = locGroup4Id (get_parent_chain m 3 g) \<and>
     locGroup5Id r = locGroup5Id (get_parent_chain m 3 g) \<and>
     (matchLevel r = Some 3 \<or> matchLevel r = Some 2)"

definition only_named :: "texts \<Rightarrow> level_data \<Rightarrow> int \<Rightarrow> bool" where
  \<comment> \<open>no node of the level other than \<open>m\<close> has a name that occurs as a whole word in a text\<close>
  "only_named t level_data m = no_variant_match t (filter (\<lambda>(k, info). k \<noteq> m) level_data)"

definition named_in :: "texts \<Rightarrow> loc_info \<Rightarrow> bool" where
  \<comment> \<open>some name of the node occurs as a whole word in one of the four texts\<close>
  "named_in t info =
     list_ex (\<lambda>src. list_ex (\<lambda>v. re_search_word v (texts_get t src)) (all_variants info))
       texts_items"


definition spec_priority :: "source \<Rightarrow> nat" where
  \<comment> \<open>the order of the fields as the specification words it: title highest, then the
      location text, then the details, the description lowest\<close>
  "spec_priority s = (case s of Title \<Rightarrow> 4 | Location \<Rightarrow> 3 | Details \<Rightarrow> 2 | Description \<Rightarrow> 1)"

subsection \<open>Auxiliary notions of the proofs\<close>

definition score_of :: "(int \<times> real) option \<Rightarrow> real" where
  "score_of r = (case r of None \<Rightarrow> 0 | Some (k, s) \<Rightarrow> s)"

definition score_of3 :: "(int \<times> real \<times> source) option \<Rightarrow> real" where
  "score_of3 r = (case r of None \<Rightarrow> 0 | Some (k, s, src) \<Rightarrow> s)"

definition boost :: "source \<Rightarrow> real" where
  \<comment> \<open>the tie-breaker of \<^verbatim>\<open>find_best_match_in_level\<close>\<close>
  "boost src = (if src = Location then 1/100 else 0)"

definition filtered :: "level_data \<Rightarrow> int option \<Rightarrow> level_data" where
  "filtered level_data pf = (case pf of None \<Rightarrow> level_data | Some p \<Rightarrow> filter_parent level_data p)"

definition per_source :: "texts \<Rightarrow> level_data \<Rightarrow> int option \<Rightarrow> source \<Rightarrow> (int \<times> real) option" where
  \<comment> \<open>what one round of the loop of \<^verbatim>\<open>find_best_match_in_level\<close> finds\<close>
  "per_source t level_data pf src =
     (if texts_get t src = [] then None
      else find_match_in_level (texts_get t src) (filtered level_data pf) src)"

definition adj3 :: "(int \<times> real \<times> source) option \<Rightarrow> real" where
  \<comment> \<open>the adjusted score of the best match of \<^verbatim>\<open>find_match\<close>\<close>
  "adj3 r = (case r of None \<Rightarrow> 0 | Some (k, sc, src) \<Rightarrow> sc + source_priority src * (1/1000))"

definition passes :: "int option \<Rightarrow> loc_info \<Rightarrow> bool" where
  \<comment> \<open>the node is not skipped by the parent filter of \<^verbatim>\<open>find_match\<close>\<close>
  "passes pf info \<longleftrightarrow> \<not> (truthy_id pf \<and> parent_id info \<noteq> pf)"

definition away :: "(int \<times> real) option \<Rightarrow> bool" where
  \<comment> \<open>the nearest node so far, if any, is at a positive distance\<close>
  "away best = (case best of None \<Rightarrow> True | Some (k, d) \<Rightarrow> 0 < d)"

subsection \<open>Example data\<close>

definition node :: "int \<Rightarrow> string \<Rightarrow> string \<Rightarrow> int option \<Rightarrow> loc_info" where
  \<comment> \<open>a node without alternative names and without coordinates\<close>
  "node i n np p =
     \<lparr>loc_id = i, name = n, normalized = n, no_prefix = np, alt_names = [],
      parent_id = p, latitude = None, longitude = None\<rparr>"

definition node_at :: "int \<Rightarrow> string \<Rightarrow> string \<Rightarrow> int option \<Rightarrow> real \<Rightarrow> real \<Rightarrow> loc_info" where
  "node_at i n np p la lo = (node i n np p)\<lparr>latitude := Some la, longitude := Some lo\<rparr>"

definition text_fields :: "string \<Rightarrow> string \<Rightarrow> string \<Rightarrow> string \<Rightarrow> texts" where
  "text_fields a b c d = \<lparr>title = a, location = b, details = c, description = d\<rparr>"

definition no_scan :: scanner where
  "no_scan = (\<lambda>_. None)"

definition idle_store :: store where
  "idle_store = \<lparr>replies = [], posted = [], staged = []\<rparr>"

definition tecla_groups :: groups where
  \<comment> \<open>one municipality, under a district and a department\<close>
  "tecla_groups =
     \<lparr>l2 = [],
      l3 = [(1, node 1 ''santa tecla'' ''santa tecla'' (Some 40))],
      l4 = [(40, node 40 ''la libertad sur'' ''libertad sur'' (Some 5))],
      l5 = [(5, node 5 ''la libertad'' ''libertad'' None)]\<rparr>"

definition benito_lat :: real where
  "benito_lat = 136969/10000"

definition benito_lng :: real where
  "benito_lng = - 892341/10000"


definition almendros_lat :: real where
  "almendros_lat = 137/10"

definition almendros_lng :: real where
  "almendros_lng = - 892/10"

definition almendros_scan :: scanner where
  "almendros_scan s =
     (if s = ''residencial los almendros casa de 3 habitaciones''
      then Some (''Residencial Los Almendros'', ''residencial los almendros'') else None)"

definition almendros_texts :: texts where
  "almendros_texts = text_fields ''residencial los almendros casa de 3 habitaciones'' [] [] []"

definition benito_groups :: groups where
  "benito_groups =
     tecla_groups\<lparr>l2 :=
       [(20, node_at 20 ''colonia san benito'' ''san benito'' (Some 1)
               (almendros_lat + 1/50) almendros_lng)]\<rparr>"

definition conflicting_store :: store where
  "conflicting_store = \<lparr>replies = [Conflict, Conflict, Conflict], posted = [], staged = []\<rparr>"

definition accepting_store :: store where
  "accepting_store = \<lparr>replies = [Created None], posted = [], staged = []\<rparr>"

definition almendros_groups :: groups where
  "almendros_groups =
     benito_groups\<lparr>l2 := l2 benito_groups @
       [(21, new_l2_entry 21 ''Residencial Los Almendros'' ''residencial los almendros''
               almendros_lat almendros_lng 1)]\<rparr>"

definition twin_groups :: groups where
  "twin_groups =
     tecla_groups\<lparr>l2 :=
       [(20, node_at 20 ''colonia san benito'' ''san benito'' (Some 1) benito_lat benito_lng),
        (21, node_at 21 ''colonia la mascota'' ''mascota'' (Some 1) benito_lat benito_lng)]\<rparr>"

definition miguel_groups :: groups where
  "miguel_groups =
     \<lparr>l2 = [],
      l3 = [(1, node 1 ''san miguel'' ''san miguel'' (Some 121)),
            (2, node 2 ''san miguel tepezontes'' ''san miguel tepezontes'' (Some 81))],
      l4 = [(121, node 121 ''san miguel centro'' ''san miguel centro'' (Some 12)),
            (81, node 81 ''la paz centro'' ''paz centro'' (Some 8))],
      l5 = [(12, node 12 ''san miguel'' ''san miguel'' None),
            (8, node 8 ''la paz'' ''paz'' None)]\<rparr>"

definition cuscatlan_groups :: groups where
  "cuscatlan_groups =
     \<lparr>l2 = [],
      l3 = [(3, node 3 ''antiguo cuscatlan'' ''antiguo cuscatlan'' (Some 40))],
      l4 = [(40, node 40 ''la libertad este'' ''libertad este'' (Some 5))],
      l5 = [(5, node 5 ''la libertad'' ''libertad'' None),
            (7, node 7 ''cuscatlan'' ''cuscatlan'' None)]\<rparr>"


definition benito_at_groups :: groups where
  "benito_at_groups =
     tecla_groups\<lparr>l2 :=
       [(22, node_at 22 ''colonia escalon'' ''escalon'' (Some 1) (benito_lat + 1/50) benito_lng),
        (20, node_at 20 ''colonia san benito'' ''san benito'' (Some 1) benito_lat benito_lng)]\<rparr>"

definition benito_result :: match_result where
  "benito_result =
     \<lparr>locGroup2Id = Some 20, locGroup3Id = Some 1, locGroup4Id = Some 40, locGroup5Id = Some 5,
      matchLevel = Some 2, matchScore = Some 1, matchSource = Some Coordinates\<rparr>"

definition details_texts :: texts where
  "details_texts = text_fields [] [] ''casa en santa tecla'' []"

definition cuscatlan_result :: match_result where
  "cuscatlan_result =
     \<lparr>locGroup2Id = None, locGroup3Id = Some 3, locGroup4Id = Some 40, locGroup5Id = Some 5,
      matchLevel = Some 3, matchScore = Some 1, matchSource = Some (Field Title)\<rparr>"

section \<open>Properties\<close>

subsection \<open>Distance\<close>

lemma haversine_a_same: "haversine_a lat lon lat lon = 0"
  by (simp add: haversine_a_def radians_def)

lemma haversine_distance_same: "haversine_distance lat lon lat lon = Inr 0"
  by (simp add: haversine_distance_def haversine_a_same)

lemma sin_half_diff_sq: "(sin (radians (x - y) / 2))\<^sup>2 = (sin (radians (y - x) / 2))\<^sup>2"
proof -
  have "radians (x - y) / 2 = - (radians (y - x) / 2)"
    by (simp add: radians_def field_simps)
  then show ?thesis
    by (metis sin_minus power2_minus)
qed

lemma haversine_a_sym: "haversine_a lat1 lon1 lat2 lon2 = haversine_a lat2 lon2 lat1 lon1"
  unfolding haversine_a_def Let_def
  by (simp add: sin_half_diff_sq [of lat2 lat1] sin_half_diff_sq [of lon2 lon1] mult.commute)

lemma haversine_distance_nonneg: "haversine_distance lat1 lon1 lat2 lon2 = Inr d \<Longrightarrow> 0 \<le> d"
proof -
  assume h: "haversine_distance lat1 lon1 lat2 lon2 = Inr d"
  define a where "a = haversine_a lat1 lon1 lat2 lon2"
  from h have a0: "0 \<le> a" and a1: "sqrt a \<le> 1" and d: "d = 6371 * 2 * arcsin (sqrt a)"
    by (auto simp: haversine_distance_def Let_def a_def split: if_splits)
  have "0 \<le> sqrt a" using a0 by simp
  then have "arcsin 0 \<le> arcsin (sqrt a)"
    using a1 by (intro arcsin_le_arcsin) auto
  then show ?thesis using d by simp
qed

lemma haversine_north:
  assumes "0 < e" and "e < 180"
  shows "haversine_distance lat lon (lat + e) lon = Inr (6371 * 2 * (radians e / 2))"
proof -
  let ?x = "radians e / 2"
  have x0: "0 < ?x" using assms(1) by (simp add: radians_def)
  have x1: "?x < pi / 2" using assms(2) by (simp add: radians_def)
  have a: "haversine_a lat lon (lat + e) lon = (sin ?x)\<^sup>2"
    by (simp add: haversine_a_def radians_def)
  have s: "0 < sin ?x" using x0 x1 by (intro sin_gt_zero) (auto intro: less_trans)
  then have q: "sqrt ((sin ?x)\<^sup>2) = sin ?x" by simp
  have "arcsin (sin ?x) = ?x" using x0 x1 by (intro arcsin_sin) auto
  then show ?thesis
    unfolding haversine_distance_def a Let_def q using s by (simp add: not_less)
qed

lemma north_positive:
  assumes "0 < e" and "e < 180"
  shows "\<exists>d. haversine_distance lat lon (lat + e) lon = Inr d \<and> 0 < d"
proof -
  have "0 < 6371 * 2 * (radians e / 2)"
    using assms(1) by (simp add: radians_def)
  with haversine_north [OF assms, of lat lon] show ?thesis by blast
qed

lemma north_two_hundredths:
  "\<exists>d. haversine_distance lat lon (lat + 1/50) lon = Inr d \<and> 1 \<le> d"
proof -
  have "(1::real) \<le> 6371 * 2 * ((1/50) * 2 / 180 / 2)" by simp
  also have "\<dots> \<le> 6371 * 2 * (radians (1/50) / 2)"
    using pi_ge_two by (simp add: radians_def)
  finally show ?thesis
    using haversine_north [of "1/50" lat lon] by simp
qed

subsection \<open>Whole-word search\<close>

lemma search_from_str_in: "search_from p b s \<Longrightarrow> str_in p s"
  by (induction s arbitrary: b) (auto simp: match_at_def startswith_def)

lemma re_search_word_str_in: "re_search_word p s \<Longrightarrow> str_in p s"
  by (simp add: re_search_word_def search_from_str_in)

lemma texts_items_all: "src \<in> set texts_items"
  by (cases src) (simp_all add: texts_items_def)

lemma no_variant_matchD:
  "no_variant_match t level_data \<Longrightarrow> (k, info) \<in> set level_data \<Longrightarrow>
   v \<in> set (all_variants info) \<Longrightarrow> \<not> re_search_word v (texts_get t src)"
  using texts_items_all [of src]
  by (fastforce simp: no_variant_match_def list_all_iff)

subsection \<open>Nothing matches\<close>

lemma alt_word_match_variants:
  "alt_word_match (alt_names info) s \<Longrightarrow> \<exists>v \<in> set (all_variants info). re_search_word v s"
  by (auto simp: alt_word_match_def all_variants_def list_ex_iff)

lemma name_score_zero:
  "\<forall>v \<in> set (all_variants info). \<not> re_search_word v s \<Longrightarrow> name_score s info = 0"
  using alt_word_match_variants [of info s]
  by (auto simp: name_score_def all_variants_def)

lemma variant_score_zero:
  "\<forall>v \<in> set (all_variants info). \<not> re_search_word v s \<Longrightarrow> variant_score s info = 0"
  by (auto simp: variant_score_def list_ex_iff)

lemma find_match_loop_zero:
  "\<forall>(k, info) \<in> set level_data. name_score s info = 0 \<Longrightarrow>
   find_match_loop s src level_data best bs = best"
  by (induction level_data arbitrary: best bs) auto

lemma find_match_in_level_none:
  "\<forall>(k, info) \<in> set level_data. name_score s info = 0 \<Longrightarrow>
   find_match_in_level s level_data src = None"
  by (simp add: find_match_in_level_def find_match_loop_zero)

lemma best_match_loop_none:
  "\<forall>(k, info) \<in> set level_data. \<forall>src. name_score (texts_get t src) info = 0 \<Longrightarrow>
   best_match_loop t level_data pf srcs best bs = best"
proof (induction srcs arbitrary: best bs)
  case Nil
  then show ?case by simp
next
  case (Cons s srcs)
  have "find_match_in_level (texts_get t s) level_data s = None"
    using Cons.prems by (intro find_match_in_level_none) auto
  moreover have "find_match_in_level (texts_get t s) (filter_parent level_data p) s = None" for p
    using Cons.prems by (intro find_match_in_level_none) (auto simp: filter_parent_def)
  ultimately show ?case
    using Cons by (auto simp: Let_def split: option.splits)
qed

lemma find_best_none:
  "no_variant_match t level_data \<Longrightarrow> find_best_match_in_level t level_data pf = None"
  unfolding find_best_match_in_level_def
  by (rule best_match_loop_none) (auto intro!: name_score_zero dest: no_variant_matchD)

lemma find_match_sources_zero:
  "\<forall>src. variant_score (texts_get t src) info = 0 \<Longrightarrow>
   find_match_sources t k info srcs acc = acc"
  by (induction srcs arbitrary: acc) (auto simp: Let_def)

lemma find_match_nodes_zero:
  "\<forall>(k, info) \<in> set level_data. \<forall>src. variant_score (texts_get t src) info = 0 \<Longrightarrow>
   find_match_nodes t pf level_data acc = acc"
  by (induction level_data arbitrary: acc) (auto simp: find_match_sources_zero)

lemma find_match_none:
  "no_variant_match t level_data \<Longrightarrow> find_match t level_data pf = None"
  unfolding find_match_def
  by (subst find_match_nodes_zero) (auto intro!: variant_score_zero dest: no_variant_matchD)

subsection \<open>Listings without coordinates\<close>

lemma coords_falsy_cases:
  "(\<not> has_coordinates lat lng) \<longleftrightarrow> lat = None \<or> lat = Some 0 \<or> lng = None \<or> lng = Some 0"
  by (auto simp: has_coordinates_def truthy_coord_def split: option.splits)

lemma auto_l2_no_coords:
  "\<not> has_coordinates lat lng \<Longrightarrow> auto_l2 scan t lat lng l3_id g ext st r = Inr (r, g, st)"
  by (simp add: auto_l2_def)

lemma match_listing_text_no_coords:
  assumes "\<not> has_coordinates lat lng"
  shows "match_listing_text scan t lat lng ext g st = match_listing_text scan t None None ext g st"
    and "\<exists>r. match_listing_text scan t lat lng ext g st = Inr (r, g, st)"
  using assms
  by (auto simp: match_listing_text_def municipality_step_def auto_l2_no_coords
        has_coordinates_def truthy_coord_def split: option.splits prod.splits)

lemma match_texts_text_no_coords:
  assumes "\<not> has_coordinates lat lng"
  shows "match_listing_with_texts_text scan t lat lng ext g st =
         match_listing_with_texts_text scan t None None ext g st"
    and "\<exists>r. match_listing_with_texts_text scan t lat lng ext g st = Inr (r, g, st)"
  using assms
  by (auto simp: match_listing_with_texts_text_def municipality_step_def auto_l2_no_coords
        has_coordinates_def truthy_coord_def split: option.splits prod.splits)

text \<open>
  C9. A listing whose latitude or longitude is missing, \<^verbatim>\<open>None\<close> or exactly 0 has no
  coordinates: both decision procedures skip the coordinate matcher and return what
  their text strategies return for a listing without coordinates; no error is raised and
  neither the index nor the store changes, so no neighbourhood is created or staged.
\<close>

theorem zero_or_missing_coordinates_text_only:
  assumes "lat = None \<or> lat = Some 0 \<or> lng = None \<or> lng = Some 0"
  shows "match_listing scan t lat lng ext g st = match_listing_text scan t None None ext g st \<and>
         (\<exists>r. match_listing scan t lat lng ext g st = Inr (r, g, st)) \<and>
         match_listing_with_texts scan t g lat lng ext st =
           match_listing_with_texts_text scan t None None ext g st \<and>
         (\<exists>r. match_listing_with_texts scan t g lat lng ext st = Inr (r, g, st))"
proof -
  from assms have f: "\<not> has_coordinates lat lng"
    by (simp add: coords_falsy_cases)
  then have "match_listing scan t lat lng ext g st = match_listing_text scan t lat lng ext g st"
    and "match_listing_with_texts scan t g lat lng ext st =
         match_listing_with_texts_text scan t lat lng ext g st"
    by (auto simp: match_listing_def match_listing_with_texts_def)
  then show ?thesis
    using match_listing_text_no_coords [OF f] match_texts_text_no_coords [OF f] by simp
qed

theorem zero_or_missing_coordinates_witness:
  "(Some 0 = (None :: real option) \<or> Some (0 :: real) = Some 0 \<or>
    Some (-89) = (None :: real option) \<or> Some (-89 :: real) = Some 0) \<and>
   (match_listing no_scan (text_fields ''casa en santa tecla'' [] [] []) (Some 0) (Some (-89))
      (Some 7) tecla_groups idle_store =
    match_listing_text no_scan (text_fields ''casa en santa tecla'' [] [] []) None None (Some 7)
      tecla_groups idle_store \<and>
    (\<exists>r. match_listing no_scan (text_fields ''casa en santa tecla'' [] [] []) (Some 0)
           (Some (-89)) (Some 7) tecla_groups idle_store = Inr (r, tecla_groups, idle_store)) \<and>
    match_listing_with_texts no_scan (text_fields ''casa en santa tecla'' [] [] []) tecla_groups
      (Some 0) (Some (-89)) (Some 7) idle_store =
    match_listing_with_texts_text no_scan (text_fields ''casa en santa tecla'' [] [] []) None None
      (Some 7) tecla_groups idle_store \<and>
    (\<exists>r. match_listing_with_texts no_scan (text_fields ''casa en santa tecla'' [] [] [])
           tecla_groups (Some 0) (Some (-89)) (Some 7) idle_store =
         Inr (r, tecla_groups, idle_store)))"
proof (rule conjI)
  show "Some 0 = (None :: real option) \<or> Some (0 :: real) = Some 0 \<or>
        Some (-89) = (None :: real option) \<or> Some (-89 :: real) = Some 0"
    by simp
  then show "match_listing no_scan (text_fields ''casa en santa tecla'' [] [] []) (Some 0)
      (Some (-89)) (Some 7) tecla_groups idle_store =
    match_listing_text no_scan (text_fields ''casa en santa tecla'' [] [] []) None None (Some 7)
      tecla_groups idle_store \<and>
    (\<exists>r. match_listing no_scan (text_fields ''casa en santa tecla'' [] [] []) (Some 0)
           (Some (-89)) (Some 7) tecla_groups idle_store = Inr (r, tecla_groups, idle_store)) \<and>
    match_listing_with_texts no_scan (text_fields ''casa en santa tecla'' [] [] []) tecla_groups
      (Some 0) (Some (-89)) (Some 7) idle_store =
    match_listing_with_texts_text no_scan (text_fields ''casa en santa tecla'' [] [] []) None None
      (Some 7) tecla_groups idle_store \<and>
    (\<exists>r. match_listing_with_texts no_scan (text_fields ''casa en santa tecla'' [] [] [])
           tecla_groups (Some 0) (Some (-89)) (Some 7) idle_store =
         Inr (r, tecla_groups, idle_store))"
    by (rule zero_or_missing_coordinates_text_only)
qed

lemma no_signal_both:
  assumes "\<not> has_coordinates lat lng"
    and "no_variant_match t (l2 g)" and "no_variant_match t (l3 g)" and "no_variant_match t (l5 g)"
  shows "match_listing scan t lat lng ext g st = Inr (None, g, st)"
    and "match_listing_with_texts scan t g lat lng ext st = Inr (empty_result, g, st)"
  using assms
  by (simp_all add: match_listing_def match_listing_with_texts_def match_listing_text_def
        match_listing_with_texts_text_def find_best_none find_match_none cleared_def
        last_resort_def or_empty_def)

text \<open>
  C7. A listing with no coordinates, none of whose text fields contains a name of a
  node of levels 2, 3 or 5 as a whole word, ends unmatched, and the outcome is a value:
  \<^verbatim>\<open>match_listing\<close> returns \<^verbatim>\<open>None\<close>, \<^verbatim>\<open>match_listing_with_texts\<close> returns the
  result whose four ids, level, score and source are all null. No error is raised and
  the index and the store are unchanged.
\<close>

theorem no_signal_unmatched:
  assumes "\<not> has_coordinates lat lng"
    and "no_variant_match t (l2 g)" and "no_variant_match t (l3 g)" and "no_variant_match t (l5 g)"
  shows "match_listing scan t lat lng ext g st = Inr (None, g, st) \<and>
         match_listing_with_texts scan t g lat lng ext st = Inr (empty_result, g, st) \<and>
         locGroup2Id empty_result = None \<and> locGroup3Id empty_result = None \<and>
         locGroup4Id empty_result = None \<and> locGroup5Id empty_result = None \<and>
         matchLevel empty_result = None"
  using no_signal_both [OF assms] by (simp add: empty_result_def)

lemma tecla_no_signal:
  "no_variant_match (text_fields ''casa en venta'' ''zona norte'' [] ''bonita casa'') (l2 tecla_groups)"
  "no_variant_match (text_fields ''casa en venta'' ''zona norte'' [] ''bonita casa'') (l3 tecla_groups)"
  "no_variant_match (text_fields ''casa en venta'' ''zona norte'' [] ''bonita casa'') (l5 tecla_groups)"
  by code_simp+

theorem no_signal_unmatched_witness:
  "\<not> has_coordinates None None \<and>
   match_listing no_scan (text_fields ''casa en venta'' ''zona norte'' [] ''bonita casa'') None None
     (Some 7) tecla_groups idle_store = Inr (None, tecla_groups, idle_store) \<and>
   match_listing_with_texts no_scan (text_fields ''casa en venta'' ''zona norte'' [] ''bonita casa'')
     tecla_groups None None (Some 7) idle_store = Inr (empty_result, tecla_groups, idle_store)"
  using no_signal_unmatched
    [of None None "text_fields ''casa en venta'' ''zona norte'' [] ''bonita casa''" tecla_groups
        no_scan "Some 7" idle_store]
    tecla_no_signal
  by (simp add: has_coordinates_def truthy_coord_def)

subsection \<open>Distance, again\<close>

text \<open>
  C10. The haversine distance from a point to itself is 0, and the distance is symmetric
  in its two points (the same value, or the same domain error, in both directions).
\<close>

theorem haversine_sanity:
  "haversine_distance lat lon lat lon = Inr 0 \<and>
   haversine_distance lat1 lon1 lat2 lon2 = haversine_distance lat2 lon2 lat1 lon1"
  by (simp add: haversine_distance_same haversine_distance_def haversine_a_sym [of lat1 lon1 lat2 lon2])

subsection \<open>Scores of the two search functions\<close>

lemma name_score_values: "name_score s info \<in> {0, 1, 95/100, 9/10}"
  by (simp add: name_score_def)

lemma variant_score_values: "variant_score s info \<in> {0, 1, 95/100, 9/10}"
  by (simp add: variant_score_def)

lemma name_score_nonneg: "0 \<le> name_score s info"
  using name_score_values [of s info] by auto

lemma source_weight_pos: "0 < source_weight src"
  by (cases src) (simp_all add: source_weight_def)

lemma find_match_loop_max:
  "score_of best = bs \<Longrightarrow> 0 \<le> bs \<Longrightarrow>
   bs \<le> score_of (find_match_loop s src level_data best bs) \<and>
   (\<forall>(k, info) \<in> set level_data.
      name_score s info * source_weight src \<le> score_of (find_match_loop s src level_data best bs))"
proof (induction level_data arbitrary: best bs)
  case Nil
  then show ?case by simp
next
  case (Cons a level_data)
  obtain k info where a: "a = (k, info)" by (cases a)
  let ?sc = "name_score s info * source_weight src"
  show ?case
  proof (cases "0 < name_score s info \<and> bs < ?sc")
    case True
    then have eq: "find_match_loop s src (a # level_data) best bs =
                   find_match_loop s src level_data (Some (k, ?sc)) ?sc"
      by (simp add: a Let_def)
    have "score_of (Some (k, ?sc)) = ?sc" by (simp add: score_of_def)
    moreover have "0 \<le> ?sc" using True Cons.prems by simp
    ultimately show ?thesis
      using Cons.IH [of "Some (k, ?sc)" ?sc] True unfolding eq by (auto simp: a)
  next
    case False
    then have eq: "find_match_loop s src (a # level_data) best bs =
                   find_match_loop s src level_data best bs"
      by (auto simp: a Let_def)
    have "?sc \<le> bs"
    proof (cases "0 < name_score s info")
      case True
      with False show ?thesis by simp
    next
      case False
      then have "name_score s info = 0" using name_score_nonneg [of s info] by simp
      then show ?thesis using Cons.prems by simp
    qed
    with Cons.IH [OF Cons.prems] show ?thesis
      unfolding eq by (auto simp: a)
  qed
qed

lemma find_match_loop_origin:
  "find_match_loop s src level_data best bs = Some (k, sc) \<Longrightarrow>
   best = Some (k, sc) \<or>
   (\<exists>info. (k, info) \<in> set level_data \<and> 0 < name_score s info \<and>
            sc = name_score s info * source_weight src)"
proof (induction level_data arbitrary: best bs)
  case Nil
  then show ?case by simp
next
  case (Cons a level_data)
  obtain k' info where a: "a = (k', info)" by (cases a)
  let ?sc = "name_score s info * source_weight src"
  show ?case
  proof (cases "0 < name_score s info \<and> bs < ?sc")
    case True
    then have "find_match_loop s src level_data (Some (k', ?sc)) ?sc = Some (k, sc)"
      using Cons.prems by (simp add: a Let_def)
    from Cons.IH [OF this] True show ?thesis by (auto simp: a)
  next
    case False
    then have "find_match_loop s src level_data best bs = Some (k, sc)"
      using Cons.prems by (auto simp: a Let_def split: if_splits)
    from Cons.IH [OF this] show ?thesis by auto
  qed
qed

lemma find_match_in_level_origin:
  "find_match_in_level s level_data src = Some (k, sc) \<Longrightarrow>
   \<exists>info. (k, info) \<in> set level_data \<and> 0 < name_score s info \<and>
          sc = name_score s info * source_weight src"
  using find_match_loop_origin [of s src level_data None 0 k sc]
  by (auto simp: find_match_in_level_def split: if_splits)

lemma find_match_in_level_max:
  assumes "s \<noteq> []" and "(k, info) \<in> set level_data" and "0 < name_score s info"
  shows "\<exists>k' sc'. find_match_in_level s level_data src = Some (k', sc') \<and>
                 name_score s info * source_weight src \<le> sc'"
proof -
  have "name_score s info * source_weight src \<le> score_of (find_match_loop s src level_data None 0)"
    using find_match_loop_max [of None 0 s src level_data] assms(2)
    by (auto simp: score_of_def)
  moreover have "0 < name_score s info * source_weight src"
    using assms(3) source_weight_pos by simp
  ultimately have "0 < score_of (find_match_loop s src level_data None 0)" by linarith
  then obtain k' sc' where "find_match_loop s src level_data None 0 = Some (k', sc')"
    by (cases "find_match_loop s src level_data None 0") (auto simp: score_of_def)
  then show ?thesis
    using \<open>name_score s info * source_weight src \<le> score_of (find_match_loop s src level_data None 0)\<close> assms(1)
    by (simp add: find_match_in_level_def score_of_def)
qed

lemma best_match_loop_step:
  "best_match_loop t level_data pf (src # srcs) best bs =
     (case per_source t level_data pf src of
        None \<Rightarrow> best_match_loop t level_data pf srcs best bs
      | Some (k, score) \<Rightarrow>
          if score + boost src > bs
          then best_match_loop t level_data pf srcs (Some (k, score + boost src, src)) (score + boost src)
          else best_match_loop t level_data pf srcs best bs)"
  by (auto simp: per_source_def filtered_def boost_def Let_def split: option.splits)

lemma best_match_loop_max:
  "score_of3 best = bs \<Longrightarrow>
   bs \<le> score_of3 (best_match_loop t level_data pf srcs best bs) \<and>
   (\<forall>src \<in> set srcs. \<forall>k sc. per_source t level_data pf src = Some (k, sc) \<longrightarrow>
      sc + boost src \<le> score_of3 (best_match_loop t level_data pf srcs best bs))"
proof (induction srcs arbitrary: best bs)
  case Nil
  then show ?case by simp
next
  case (Cons src srcs)
  show ?case
  proof (cases "per_source t level_data pf src")
    case None
    with Cons.IH [OF Cons.prems] show ?thesis
      by (auto simp: best_match_loop_step simp del: best_match_loop.simps)
  next
    case (Some a)
    obtain k sc where a: "a = (k, sc)" by (cases a)
    show ?thesis
    proof (cases "sc + boost src > bs")
      case True
      have "score_of3 (Some (k, sc + boost src, src)) = sc + boost src"
        by (simp add: score_of3_def)
      from Cons.IH [OF this] True Some show ?thesis
        by (auto simp: best_match_loop_step a simp del: best_match_loop.simps)
    next
      case False
      with Cons.IH [OF Cons.prems] Some show ?thesis
        by (auto simp: best_match_loop_step a simp del: best_match_loop.simps)
    qed
  qed
qed

lemma best_match_loop_origin:
  "best_match_loop t level_data pf srcs best bs = Some (k, sc, src) \<Longrightarrow>
   best = Some (k, sc, src) \<or>
   (src \<in> set srcs \<and> (\<exists>sc0. per_source t level_data pf src = Some (k, sc0) \<and> sc = sc0 + boost src))"
proof (induction srcs arbitrary: best bs)
  case Nil
  then show ?case by simp
next
  case (Cons s srcs)
  show ?case
  proof (cases "per_source t level_data pf s")
    case None
    with Cons.prems have "best_match_loop t level_data pf srcs best bs = Some (k, sc, src)"
      by (simp add: best_match_loop_step del: best_match_loop.simps)
    from Cons.IH [OF this] show ?thesis by auto
  next
    case (Some a)
    obtain k' sc' where a: "a = (k', sc')" by (cases a)
    show ?thesis
    proof (cases "sc' + boost s > bs")
      case True
      with Cons.prems Some
      have "best_match_loop t level_data pf srcs (Some (k', sc' + boost s, s)) (sc' + boost s) = Some (k, sc, src)"
        by (simp add: best_match_loop_step a del: best_match_loop.simps)
      from Cons.IH [OF this] Some show ?thesis by (auto simp: a)
    next
      case False
      with Cons.prems Some have "best_match_loop t level_data pf srcs best bs = Some (k, sc, src)"
        by (simp add: best_match_loop_step a del: best_match_loop.simps)
      from Cons.IH [OF this] show ?thesis by auto
    qed
  qed
qed

lemma find_best_origin:
  assumes "find_best_match_in_level t level_data pf = Some (k, sc, src)"
  shows "\<exists>info. (k, info) \<in> set (filtered level_data pf) \<and> texts_get t src \<noteq> [] \<and>
           0 < name_score (texts_get t src) info \<and>
           sc = name_score (texts_get t src) info * source_weight src + boost src"
proof -
  from best_match_loop_origin [OF assms [unfolded find_best_match_in_level_def]]
  obtain sc0 where p: "per_source t level_data pf src = Some (k, sc0)" and sc: "sc = sc0 + boost src"
    by auto
  from p have ne: "texts_get t src \<noteq> []"
    and "find_match_in_level (texts_get t src) (filtered level_data pf) src = Some (k, sc0)"
    by (auto simp: per_source_def split: if_splits)
  from find_match_in_level_origin [OF this(2)] ne sc show ?thesis by auto
qed

lemma find_best_max:
  assumes "find_best_match_in_level t level_data pf = Some (k, sc, src)"
    and "(k', info) \<in> set (filtered level_data pf)" and "texts_get t src' \<noteq> []"
    and "0 < name_score (texts_get t src') info"
  shows "name_score (texts_get t src') info * source_weight src' + boost src' \<le> sc"
proof -
  from find_match_in_level_max [OF assms(3) assms(2) assms(4), of src']
  obtain k2 sc2 where f: "find_match_in_level (texts_get t src') (filtered level_data pf) src' = Some (k2, sc2)"
    and le: "name_score (texts_get t src') info * source_weight src' \<le> sc2" by auto
  then have p: "per_source t level_data pf src' = Some (k2, sc2)"
    using assms(3) by (simp add: per_source_def)
  have "src' \<in> set [Location, Title, Details, Description]" by (cases src') simp_all
  with best_match_loop_max [of None 0 t level_data pf "[Location, Title, Details, Description]"] p
  have "sc2 + boost src' \<le> score_of3 (find_best_match_in_level t level_data pf)"
    unfolding find_best_match_in_level_def by (simp add: score_of3_def) blast
  then show ?thesis using le assms(1) by (simp add: score_of3_def)
qed


lemma variant_score_nonneg: "0 \<le> variant_score s info"
  using variant_score_values [of s info] by auto

lemma source_priority_pos: "0 < source_priority src"
  by (cases src) (simp_all add: source_priority_def)

lemma find_match_sources_step:
  "find_match_sources t k info (src # srcs) acc =
     (if texts_get t src \<noteq> [] \<and> 0 < variant_score (texts_get t src) info \<and>
         snd acc < variant_score (texts_get t src) info + source_priority src * (1/1000)
      then find_match_sources t k info srcs
             (Some (k, variant_score (texts_get t src) info, src),
              variant_score (texts_get t src) info + source_priority src * (1/1000))
      else find_match_sources t k info srcs acc)"
  by (cases acc) (simp add: Let_def)

lemma find_match_sources_inv:
  "snd acc = adj3 (fst acc) \<Longrightarrow>
   snd (find_match_sources t k info srcs acc) = adj3 (fst (find_match_sources t k info srcs acc))"
proof (induction srcs arbitrary: acc)
  case Nil
  then show ?case by simp
next
  case (Cons src srcs)
  have "snd (Some (k, variant_score (texts_get t src) info, src),
             variant_score (texts_get t src) info + source_priority src * (1/1000)) =
        adj3 (fst (Some (k, variant_score (texts_get t src) info, src),
             variant_score (texts_get t src) info + source_priority src * (1/1000)))"
    by (simp add: adj3_def)
  from Cons.IH [OF this] Cons.IH [OF Cons.prems] show ?case
    by (simp add: find_match_sources_step del: find_match_sources.simps)
qed

lemma find_match_sources_max:
  "0 \<le> snd acc \<Longrightarrow>
   snd acc \<le> snd (find_match_sources t k info srcs acc) \<and>
   (\<forall>src \<in> set srcs. texts_get t src \<noteq> [] \<and> 0 < variant_score (texts_get t src) info \<longrightarrow>
      variant_score (texts_get t src) info + source_priority src * (1/1000)
        \<le> snd (find_match_sources t k info srcs acc))"
proof (induction srcs arbitrary: acc)
  case Nil
  then show ?case by simp
next
  case (Cons src srcs)
  let ?v = "variant_score (texts_get t src) info + source_priority src * (1/1000)"
  show ?case
  proof (cases "texts_get t src \<noteq> [] \<and> 0 < variant_score (texts_get t src) info \<and> snd acc < ?v")
    case True
    then have "0 \<le> snd (Some (k, variant_score (texts_get t src) info, src), ?v)"
      using Cons.prems by simp
    from Cons.IH [OF this] True show ?thesis
      by (auto simp: find_match_sources_step simp del: find_match_sources.simps)
  next
    case False
    with Cons.IH [OF Cons.prems] show ?thesis
      by (auto simp: find_match_sources_step simp del: find_match_sources.simps)
  qed
qed

lemma find_match_sources_origin:
  "fst (find_match_sources t k info srcs acc) = Some (k', sc, src) \<Longrightarrow>
   fst acc = Some (k', sc, src) \<or>
   (k' = k \<and> src \<in> set srcs \<and> texts_get t src \<noteq> [] \<and>
    sc = variant_score (texts_get t src) info \<and> 0 < sc)"
proof (induction srcs arbitrary: acc)
  case Nil
  then show ?case by simp
next
  case (Cons s srcs)
  let ?v = "variant_score (texts_get t s) info + source_priority s * (1/1000)"
  show ?case
  proof (cases "texts_get t s \<noteq> [] \<and> 0 < variant_score (texts_get t s) info \<and> snd acc < ?v")
    case True
    with Cons.prems
    have "fst (find_match_sources t k info srcs (Some (k, variant_score (texts_get t s) info, s), ?v))
          = Some (k', sc, src)"
      by (simp add: find_match_sources_step del: find_match_sources.simps)
    from Cons.IH [OF this] True show ?thesis by auto
  next
    case False
    with Cons.prems have "fst (find_match_sources t k info srcs acc) = Some (k', sc, src)"
      by (auto simp: find_match_sources_step simp del: find_match_sources.simps)
    from Cons.IH [OF this] show ?thesis by auto
  qed
qed

lemma find_match_nodes_step:
  "find_match_nodes t pf ((k, info) # rest) acc =
     (if passes pf info then find_match_nodes t pf rest (find_match_sources t k info texts_items acc)
      else find_match_nodes t pf rest acc)"
  by (simp add: passes_def)

lemma find_match_nodes_inv:
  "snd acc = adj3 (fst acc) \<Longrightarrow>
   snd (find_match_nodes t pf level_data acc) = adj3 (fst (find_match_nodes t pf level_data acc))"
proof (induction level_data arbitrary: acc)
  case Nil
  then show ?case by simp
next
  case (Cons a level_data)
  obtain k info where a: "a = (k, info)" by (cases a)
  show ?case
    using Cons.IH [OF Cons.prems] Cons.IH [OF find_match_sources_inv [OF Cons.prems]]
    by (simp add: a find_match_nodes_step del: find_match_nodes.simps)
qed

lemma find_match_nodes_max:
  "0 \<le> snd acc \<Longrightarrow>
   snd acc \<le> snd (find_match_nodes t pf level_data acc) \<and>
   (\<forall>(k, info) \<in> set level_data. \<forall>src.
      passes pf info \<and> texts_get t src \<noteq> [] \<and> 0 < variant_score (texts_get t src) info \<longrightarrow>
      variant_score (texts_get t src) info + source_priority src * (1/1000)
        \<le> snd (find_match_nodes t pf level_data acc))"
proof (induction level_data arbitrary: acc)
  case Nil
  then show ?case by simp
next
  case (Cons a level_data)
  obtain k info where a: "a = (k, info)" by (cases a)
  show ?case
  proof (cases "passes pf info")
    case True
    let ?acc = "find_match_sources t k info texts_items acc"
    from find_match_sources_max [OF Cons.prems, of t k info texts_items]
    have m: "snd acc \<le> snd ?acc"
      and s: "\<And>src. texts_get t src \<noteq> [] \<Longrightarrow> 0 < variant_score (texts_get t src) info \<Longrightarrow>
              variant_score (texts_get t src) info + source_priority src * (1/1000) \<le> snd ?acc"
      using texts_items_all by auto
    from m Cons.prems have "0 \<le> snd ?acc" by simp
    from Cons.IH [OF this] m s True show ?thesis
      by (simp add: a find_match_nodes_step del: find_match_nodes.simps) (smt (verit) case_prodI2)
  next
    case False
    with Cons.IH [OF Cons.prems] show ?thesis
      by (auto simp: a find_match_nodes_step simp del: find_match_nodes.simps)
  qed
qed

lemma find_match_nodes_origin:
  "fst (find_match_nodes t pf level_data acc) = Some (k, sc, src) \<Longrightarrow>
   fst acc = Some (k, sc, src) \<or>
   (\<exists>info. (k, info) \<in> set level_data \<and> passes pf info \<and> texts_get t src \<noteq> [] \<and>
           sc = variant_score (texts_get t src) info \<and> 0 < sc)"
proof (induction level_data arbitrary: acc)
  case Nil
  then show ?case by simp
next
  case (Cons a level_data)
  obtain k' info where a: "a = (k', info)" by (cases a)
  show ?case
  proof (cases "passes pf info")
    case True
    with Cons.prems
    have "fst (find_match_nodes t pf level_data (find_match_sources t k' info texts_items acc))
          = Some (k, sc, src)"
      by (simp add: a find_match_nodes_step del: find_match_nodes.simps)
    from Cons.IH [OF this] find_match_sources_origin [of t k' info texts_items acc k sc src] True
    show ?thesis by (auto simp: a)
  next
    case False
    with Cons.prems have "fst (find_match_nodes t pf level_data acc) = Some (k, sc, src)"
      by (simp add: a find_match_nodes_step del: find_match_nodes.simps)
    from Cons.IH [OF this] show ?thesis by auto
  qed
qed

lemma find_match_origin:
  assumes "find_match t level_data pf = Some (k, sc, src)"
  shows "\<exists>info. (k, info) \<in> set level_data \<and> passes pf info \<and> texts_get t src \<noteq> [] \<and>
           sc = variant_score (texts_get t src) info \<and> 0 < sc"
  using find_match_nodes_origin [of t pf level_data "(None, 0)" k sc src] assms
  by (simp add: find_match_def)

lemma find_match_max:
  assumes "find_match t level_data pf = Some (k, sc, src)"
    and "(k', info) \<in> set level_data" and "passes pf info" and "texts_get t src' \<noteq> []"
    and "0 < variant_score (texts_get t src') info"
  shows "variant_score (texts_get t src') info + source_priority src' * (1/1000)
         \<le> sc + source_priority src * (1/1000)"
proof -
  let ?r = "find_match_nodes t pf level_data (None, 0)"
  have "snd ?r = adj3 (fst ?r)"
    by (rule find_match_nodes_inv) (simp add: adj3_def)
  with assms(1) have "snd ?r = sc + source_priority src * (1/1000)"
    by (simp add: find_match_def adj3_def)
  moreover have "variant_score (texts_get t src') info + source_priority src' * (1/1000) \<le> snd ?r"
    using find_match_nodes_max [of "(None, 0)" t pf level_data] assms(2-5) by auto
  ultimately show ?thesis by simp
qed

lemma distinct_info:
  "distinct (map fst level_data) \<Longrightarrow> map_of level_data k = Some info \<Longrightarrow>
   (k, info') \<in> set level_data \<Longrightarrow> info' = info"
  by (metis map_of_is_SomeI option.inject)

lemma filtered_subset: "(k, info) \<in> set (filtered level_data pf) \<Longrightarrow> (k, info) \<in> set level_data"
  by (auto simp: filtered_def filter_parent_def split: option.splits)

lemma weighted_order:
  assumes "r \<in> {1, 95/100, 9/10 :: real}"
    and "r * source_weight src' + boost src' \<le> r * source_weight src + boost src"
  shows "spec_priority src' \<le> spec_priority src"
  using assms
  by (cases src; cases src')
     (auto simp: source_weight_def boost_def spec_priority_def)

subsection \<open>Evaluations on the example data\<close>

lemma texts_get_fields:
  "texts_get (text_fields a b c d) Title = a"
  "texts_get (text_fields a b c d) Location = b"
  "texts_get (text_fields a b c d) Details = c"
  "texts_get (text_fields a b c d) Description = d"
  by (simp_all add: text_fields_def texts_get_def)


lemma tecla_title_and_location:
  "find_best_match_in_level (text_fields ''santa tecla'' ''santa tecla'' [] []) (l3 tecla_groups) None
     = Some (1, 1, Title)"
  "find_match (text_fields ''santa tecla'' ''santa tecla'' [] []) (l3 tecla_groups) None
     = Some (1, 1, Location)"
  "variant_score ''santa tecla'' (node 1 ''santa tecla'' ''santa tecla'' (Some 40)) = 1"
  "name_score ''santa tecla'' (node 1 ''santa tecla'' ''santa tecla'' (Some 40)) = 1"
  by code_simp+

subsection \<open>The acceptance threshold\<close>

lemma find_match_raw_score:
  assumes h: "find_match t level_data pf = Some (k, sc, src)"
  shows "sc \<in> {1, 95/100, 9/10} \<and> MIN_SCORE \<le> sc"
proof -
  from find_match_origin [OF h] obtain info where
    "sc = variant_score (texts_get t src) info" and "0 < sc" by auto
  then show ?thesis
    using variant_score_values [of "texts_get t src" info] by (auto simp: MIN_SCORE_def)
qed






subsection \<open>The order of the text fields\<close>

text \<open>
  C2 (as amended). When a node matches with the same raw score in two fields, the match
  is reported from the field of higher priority; the priority of \<^verbatim>\<open>match_listing\<close>
  (\<^verbatim>\<open>find_best_match_in_level\<close>) is title, location, details, description, and that of
  \<^verbatim>\<open>match_listing_with_texts\<close> (\<^verbatim>\<open>find_match\<close>) is location, title, details,
  description. In both, a name in the title and in the description is matched from the
  title; a name in the title and in the location is matched from the title by the first
  and from the location by the second.
\<close>

theorem source_tie_break:
  assumes "distinct (map fst level_data)" and "map_of level_data k = Some info"
  shows "(find_best_match_in_level t level_data pf = Some (k, sc, src) \<and>
          texts_get t other \<noteq> [] \<and>
          name_score (texts_get t other) info = name_score (texts_get t src) info
          \<longrightarrow> spec_priority other \<le> spec_priority src) \<and>
         (find_match t level_data pf = Some (k, sc2, src2) \<and>
          texts_get t other2 \<noteq> [] \<and>
          variant_score (texts_get t other2) info = variant_score (texts_get t src2) info
          \<longrightarrow> source_priority other2 \<le> source_priority src2)"
proof (intro conjI impI)
  assume h: "find_best_match_in_level t level_data pf = Some (k, sc, src) \<and>
             texts_get t other \<noteq> [] \<and>
             name_score (texts_get t other) info = name_score (texts_get t src) info"
  then have f: "find_best_match_in_level t level_data pf = Some (k, sc, src)"
    and ne: "texts_get t other \<noteq> []" by simp_all
  from find_best_origin [OF f]
  obtain info' where i: "(k, info') \<in> set (filtered level_data pf)"
    and pos: "0 < name_score (texts_get t src) info'"
    and sc: "sc = name_score (texts_get t src) info' * source_weight src + boost src"
    by auto
  have e: "info' = info"
    using distinct_info [OF assms(1,2)] filtered_subset [OF i] by simp
  let ?r = "name_score (texts_get t src) info"
  from h pos e have "0 < name_score (texts_get t other) info" by simp
  from find_best_max [OF f i [unfolded e] ne this] h
  have "?r * source_weight other + boost other \<le> ?r * source_weight src + boost src"
    by (simp add: sc e)
  moreover have "?r \<in> {1, 95/100, 9/10}"
    using name_score_values [of "texts_get t src" info] pos e by auto
  ultimately show "spec_priority other \<le> spec_priority src"
    using weighted_order [of ?r other src] by simp
next
  assume h: "find_match t level_data pf = Some (k, sc2, src2) \<and>
             texts_get t other2 \<noteq> [] \<and>
             variant_score (texts_get t other2) info = variant_score (texts_get t src2) info"
  then have f: "find_match t level_data pf = Some (k, sc2, src2)"
    and ne: "texts_get t other2 \<noteq> []" by simp_all
  from find_match_origin [OF f]
  obtain info' where i: "(k, info') \<in> set level_data" and p: "passes pf info'"
    and sc: "sc2 = variant_score (texts_get t src2) info'" and pos: "0 < sc2"
    by auto
  have e: "info' = info"
    using distinct_info [OF assms(1,2)] i by simp
  from h sc pos e have "0 < variant_score (texts_get t other2) info" by simp
  from find_match_max [OF f i [unfolded e] p [unfolded e] ne this] h sc e
  show "source_priority other2 \<le> source_priority src2" by simp
qed

theorem source_tie_break_witness:
  "distinct (map fst (l3 tecla_groups)) \<and>
   map_of (l3 tecla_groups) 1 = Some (node 1 ''santa tecla'' ''santa tecla'' (Some 40)) \<and>
   find_best_match_in_level (text_fields ''santa tecla'' ''santa tecla'' [] []) (l3 tecla_groups) None
     = Some (1, 1, Title) \<and>
   spec_priority Location \<le> spec_priority Title \<and>
   find_match (text_fields ''santa tecla'' ''santa tecla'' [] []) (l3 tecla_groups) None
     = Some (1, 1, Location) \<and>
   source_priority Title \<le> source_priority Location"
  using source_tie_break
    [of "l3 tecla_groups" 1 "node 1 ''santa tecla'' ''santa tecla'' (Some 40)"
        "text_fields ''santa tecla'' ''santa tecla'' [] []" None 1 Title Location 1 Location Title]
    tecla_title_and_location
  by (simp add: tecla_groups_def texts_get_fields spec_priority_def source_priority_def)

text \<open>
  The claim as stated fails for \<^verbatim>\<open>find_match\<close>: a name in the title and in the
  location, with raw score 1 in both, is matched from the location.
\<close>

theorem title_loses_to_location:
  "variant_score (texts_get (text_fields ''santa tecla'' ''santa tecla'' [] []) Title)
     (node 1 ''santa tecla'' ''santa tecla'' (Some 40)) = 1 \<and>
   variant_score (texts_get (text_fields ''santa tecla'' ''santa tecla'' [] []) Location)
     (node 1 ''santa tecla'' ''santa tecla'' (Some 40)) = 1 \<and>
   find_match (text_fields ''santa tecla'' ''santa tecla'' [] []) (l3 tecla_groups) None
     = Some (1, 1, Location)"
  by (simp add: tecla_title_and_location texts_get_fields)

subsection \<open>Parent chains\<close>

lemma py_round2_one: "py_round2 1 = 1"
  by (simp add: py_round2_def round_half_even_def)

lemma chain_loop_keeps2:
  "2 < level \<Longrightarrow> locGroup2Id (chain_loop g i level r) = locGroup2Id r"
proof (induction g i level r rule: chain_loop.induct)
  case (1 g i level r)
  have s: "locGroup2Id (set_level r level i) = locGroup2Id r"
    using "1.prems" by (simp add: set_level_def)
  show ?case
    using "1.IH" "1.prems" s
    by (subst chain_loop.simps) (auto simp: Let_def split: option.splits)
qed

lemma chain_loop_keeps3:
  "3 < level \<Longrightarrow> locGroup3Id (chain_loop g i level r) = locGroup3Id r"
proof (induction g i level r rule: chain_loop.induct)
  case (1 g i level r)
  have s: "locGroup3Id (set_level r level i) = locGroup3Id r"
    using "1.prems" by (simp add: set_level_def)
  show ?case
    using "1.IH" "1.prems" s
    by (subst chain_loop.simps) (auto simp: Let_def split: option.splits)
qed

lemma chain_level2: "locGroup2Id (get_parent_chain k 2 g) = Some k"
  unfolding get_parent_chain_def
  by (subst chain_loop.simps)
     (auto simp: Let_def chain_loop_keeps2 set_level_def split: option.splits)

lemma chain_level3:
  "locGroup3Id (get_parent_chain k 3 g) = Some k \<and> locGroup2Id (get_parent_chain k 3 g) = None"
  unfolding get_parent_chain_def
  by (subst chain_loop.simps, subst (2) chain_loop.simps)
     (auto simp: Let_def chain_loop_keeps3 chain_loop_keeps2 set_level_def no_ids_def
        split: option.splits)

lemma full_chain:
  assumes "map_of (l2 g) k = Some info" and "parent_id info = Some p3" and "p3 \<noteq> 0"
    and "map_of (l3 g) p3 = Some i3" and "parent_id i3 = Some p4" and "p4 \<noteq> 0"
    and "map_of (l4 g) p4 = Some i4" and "parent_id i4 = Some p5" and "p5 \<noteq> 0"
  shows "get_parent_chain k 2 g =
         \<lparr>locGroup2Id = Some k, locGroup3Id = Some p3, locGroup4Id = Some p4, locGroup5Id = Some p5\<rparr>"
  using assms
  by (simp add: get_parent_chain_def chain_loop.simps groups_get_def set_level_def no_ids_def)

subsection \<open>Discovery: insertion and duplicates\<close>

lemma insert_three_conflicts:
  assumes r: "replies st = Conflict # Conflict # Conflict # rest"
  shows "insert_auto_l2 d n lat lng l3_id g st = (None, g, after_conflicts g st)"
  by (simp add: insert_auto_l2_def max_retries_def numeral_3_eq_3 r after_conflicts_def)


text \<open>
  C3 (as amended). The id of a new level-2 node is the largest existing level-2 id plus 1
  (1 when there is none); on a conflict the insert is retried with the next id, three
  requests in all. When all three conflict, the failure is not fatal: the insert
  returns no id, the index is unchanged, nothing is written to the staging queue (only a
  candidate found in the details or the description is staged), and the result of the
  listing stays the municipality-level match it was before discovery.
\<close>

theorem insert_conflict_not_staged:
  assumes "replies st = Conflict # Conflict # Conflict # rest"
    and "extract_colonia_candidate scan t = Some (d, n, src)"
    and "src = Title \<or> src = Location"
    and "check_l2_duplicate n lat lng l3_id g = Inr None"
    and "lat \<noteq> 0" and "lng \<noteq> 0" and "locGroup2Id result = None"
  shows "next_l2_id g = (if l2 g = [] then 0 else Max (set (map fst (l2 g)))) + 1 \<and>
         insert_auto_l2 d n lat lng l3_id g st = (None, g, after_conflicts g st) \<and>
         posted (after_conflicts g st) =
           posted st @ [next_l2_id g, next_l2_id g + 1, next_l2_id g + 2] \<and>
         staged (after_conflicts g st) = staged st \<and>
         try_create_l2_from_listing scan t lat lng l3_id g ext st =
           Inr (None, g, after_conflicts g st) \<and>
         auto_l2 scan t (Some lat) (Some lng) l3_id g ext st result =
           Inr (result, g, after_conflicts g st) \<and>
         tier3 scan (Some t) lat lng l3_id g ext st result =
           Inr (result, g, after_conflicts g st) \<and>
         (search (l2 g) (Some l3_id) = None \<longrightarrow>
            municipality_step search scan t (Some lat) (Some lng) ext g st l3_id l3_score l3_source =
              Inr (level_result 3 l3_score (Field l3_source) (get_parent_chain l3_id 3 g)
                     empty_result, g, after_conflicts g st))"
proof -
  have i: "insert_auto_l2 d n lat lng l3_id g st = (None, g, after_conflicts g st)"
    using assms(1) by (rule insert_three_conflicts)
  have c: "try_create_l2_from_listing scan t lat lng l3_id g ext st =
           Inr (None, g, after_conflicts g st)"
    using assms(2,3,4) i by (auto simp: try_create_l2_from_listing_def truthy_id_def)
  have a: "auto_l2 scan t (Some lat) (Some lng) l3_id g ext st r = Inr (r, g, after_conflicts g st)"
    if "locGroup2Id r = None" for r
    using that c assms(5,6)
    by (simp add: auto_l2_def truthy_id_def has_coordinates_def truthy_coord_def)
  have l: "locGroup2Id (level_result 3 l3_score (Field l3_source) (get_parent_chain l3_id 3 g)
             empty_result) = None"
    using chain_level3 [of l3_id g] by (simp add: level_result_def update_chain_def)
  show ?thesis
    using i c a [OF assms(7)] a [OF l] assms(5,6)
    by (simp add: next_l2_id_def after_conflicts_def tier3_def truthy_id_def
          municipality_step_def upgrade_l2_def)
qed

lemma insert_loop_created:
  "insert_loop m new_id d n lat lng l3_id g st = (Some nid, g', st') \<Longrightarrow>
   g' = g\<lparr>l2 := dict_set (l2 g) nid (new_l2_entry nid d n lat lng l3_id)\<rparr>"
proof (induction m arbitrary: new_id st)
  case 0
  then show ?case by simp
next
  case (Suc m)
  show ?case
  proof (cases "case replies st of [] \<Rightarrow> Raised | r # _ \<Rightarrow> r")
    case (Created returned)
    with Suc.prems show ?thesis by (auto simp: Let_def)
  next
    case Conflict
    with Suc.prems Suc.IH show ?thesis by (auto simp: Let_def)
  next
    case Rejected
    with Suc.prems show ?thesis by (auto simp: Let_def)
  next
    case Raised
    with Suc.prems show ?thesis by (auto simp: Let_def)
  qed
qed

lemma duplicate_loop_keys:
  "duplicate_loop cn cs lat lng l3_id xs = Inr (Some k) \<Longrightarrow> k \<in> set (map fst xs)"
  by (induction xs) (auto split: if_splits option.splits sum.splits)

lemma duplicate_after_append:
  "duplicate_loop cn cs lat lng l3_id xs = Inr None \<Longrightarrow>
   parent_id v = Some l3_id \<Longrightarrow> same_name cn cs v \<Longrightarrow>
   duplicate_loop cn cs lat lng l3_id (xs @ [(k, v)]) = Inr (Some k)"
  by (induction xs) (auto split: if_splits option.splits sum.splits)

lemma duplicate_after_replace:
  "duplicate_loop cn cs lat lng l3_id xs = Inr None \<Longrightarrow> k \<in> set (map fst xs) \<Longrightarrow>
   parent_id v = Some l3_id \<Longrightarrow> same_name cn cs v \<Longrightarrow>
   duplicate_loop cn cs lat lng l3_id
     (map (\<lambda>(k', v'). if k' = k then (k', v) else (k', v')) xs) = Inr (Some k)"
proof (induction xs)
  case Nil
  then show ?case by simp
next
  case (Cons a xs)
  obtain k' v' where a: "a = (k', v')" by (cases a)
  show ?case
  proof (cases "k' = k")
    case True
    with Cons.prems show ?thesis by (simp add: a)
  next
    case False
    from Cons.prems(1) have rest: "duplicate_loop cn cs lat lng l3_id xs = Inr None"
      by (auto simp: a split: if_splits option.splits sum.splits)
    from Cons.prems(2) False have "k \<in> set (map fst xs)" by (simp add: a)
    from Cons.IH [OF rest this Cons.prems(3,4)] Cons.prems(1) False show ?thesis
      by (auto simp: a split: if_splits option.splits sum.splits)
  qed
qed

lemma duplicate_after_insert:
  assumes "duplicate_loop cn cs lat lng l3_id xs = Inr None"
    and "parent_id v = Some l3_id" and "same_name cn cs v"
  shows "duplicate_loop cn cs lat lng l3_id (dict_set xs k v) = Inr (Some k)"
  using assms duplicate_after_append [OF assms] duplicate_after_replace [OF assms(1) _ assms(2,3)]
  by (simp add: dict_set_def)

text \<open>
  C6. Discovery is idempotent: when a call of \<^verbatim>\<open>try_create_l2_from_listing\<close> returns an
  id (ids are not 0), a second call with the same texts, coordinates and parent
  municipality, on the index and the store the first call left, is answered by the
  duplicate check, returns the same id, sends no request and changes nothing. So the two
  calls together add at most the one node of the first call.
\<close>

theorem discovery_idempotent:
  assumes first: "try_create_l2_from_listing scan t lat lng l3_id g ext st = Inr (Some nid, g', st')"
    and nz: "nid \<noteq> 0" and ids: "0 \<notin> set (map fst (l2 g))"
  shows "try_create_l2_from_listing scan t lat lng l3_id g' ext st' = Inr (Some nid, g', st') \<and>
         (\<exists>d n src. extract_colonia_candidate scan t = Some (d, n, src) \<and>
            check_l2_duplicate n lat lng l3_id g' = Inr (Some nid) \<and>
            (g' = g \<or> g' = g\<lparr>l2 := dict_set (l2 g) nid (new_l2_entry nid d n lat lng l3_id)\<rparr>))"
proof -
  from first obtain d n src where ex: "extract_colonia_candidate scan t = Some (d, n, src)"
    by (auto simp: try_create_l2_from_listing_def split: option.splits)
  from first ex obtain existing where ch: "check_l2_duplicate n lat lng l3_id g = Inr existing"
    by (auto simp: try_create_l2_from_listing_def split: sum.splits)
  show ?thesis
  proof (cases "truthy_id existing")
    case True
    with first ex ch have "existing = Some nid" "g' = g" "st' = st"
      by (auto simp: try_create_l2_from_listing_def)
    with first ex ch show ?thesis by auto
  next
    case False
    have "existing \<noteq> Some 0"
      using duplicate_loop_keys [of n _ lat lng l3_id "l2 g" 0] ch ids
      by (auto simp: check_l2_duplicate_def)
    with False have none: "existing = None"
      by (cases existing) (auto simp: truthy_id_def)
    from first ex ch False have hi: "src = Title \<or> src = Location"
      by (auto simp: try_create_l2_from_listing_def split: if_splits option.splits)
    with first ex ch False have ins: "insert_auto_l2 d n lat lng l3_id g st = (Some nid, g', st')"
      by (auto simp: try_create_l2_from_listing_def)
    then have g': "g' = g\<lparr>l2 := dict_set (l2 g) nid (new_l2_entry nid d n lat lng l3_id)\<rparr>"
      unfolding insert_auto_l2_def by (rule insert_loop_created)
    have dup: "check_l2_duplicate n lat lng l3_id g' = Inr (Some nid)"
      unfolding check_l2_duplicate_def g'
      using duplicate_after_insert [of n "remove_location_prefixes n" lat lng l3_id "l2 g"
              "new_l2_entry nid d n lat lng l3_id" nid] ch none
      by (simp add: check_l2_duplicate_def new_l2_entry_def same_name_def)
    have "try_create_l2_from_listing scan t lat lng l3_id g' ext st' = Inr (Some nid, g', st')"
      using ex dup nz by (simp add: try_create_l2_from_listing_def truthy_id_def)
    with ex dup g' show ?thesis by auto
  qed
qed

subsection \<open>Exact coordinates\<close>

lemma nearest_l2_loop_append:
  "nearest_l2_loop lat lng (xs @ ys) best =
     (case nearest_l2_loop lat lng xs best of
        Inl e \<Rightarrow> Inl e
      | Inr b \<Rightarrow> nearest_l2_loop lat lng ys b)"
  by (induction xs arbitrary: best) (auto split: option.splits sum.splits)

lemma nearest_l2_loop_away:
  "\<forall>(k', i') \<in> set xs. farther lat lng i' \<Longrightarrow> away best \<Longrightarrow>
   \<exists>b. nearest_l2_loop lat lng xs best = Inr b \<and> away b"
proof (induction xs arbitrary: best)
  case Nil
  then show ?case by simp
next
  case (Cons a xs)
  obtain k i where a: "a = (k, i)" by (cases a)
  from Cons.prems(1) have f: "farther lat lng i" and rest: "\<forall>(k', i') \<in> set xs. farther lat lng i'"
    by (auto simp: a)
  show ?case
  proof (cases "latitude i")
    case None
    with Cons.IH [OF rest Cons.prems(2)] show ?thesis by (simp add: a)
  next
    case la: (Some la)
    show ?thesis
    proof (cases "longitude i")
      case None
      with la Cons.IH [OF rest Cons.prems(2)] show ?thesis by (simp add: a)
    next
      case lo: (Some lo)
      from f la lo obtain d where d: "haversine_distance lat lng la lo = Inr d" and pos: "0 < d"
        by (auto simp: farther_def split: sum.splits)
      have "away (Some (k, d))" using pos by (simp add: away_def)
      from Cons.IH [OF rest this] Cons.IH [OF rest Cons.prems(2)] la lo d show ?thesis
        by (simp add: a)
    qed
  qed
qed

lemma nearest_l2_loop_keep:
  "\<forall>(k', i') \<in> set xs. farther lat lng i' \<Longrightarrow>
   nearest_l2_loop lat lng xs (Some (k, 0)) = Inr (Some (k, 0))"
proof (induction xs)
  case Nil
  then show ?case by simp
next
  case (Cons a xs)
  obtain k' i where a: "a = (k', i)" by (cases a)
  from Cons.prems have f: "farther lat lng i" and rest: "\<forall>(k', i') \<in> set xs. farther lat lng i'"
    by (auto simp: a)
  from f Cons.IH [OF rest] show ?case
    by (auto simp: a farther_def closer_def split: option.splits sum.splits)
qed

lemma nearest_l2_exact:
  assumes d: "distinct (map fst level_data)" and m: "(k, info) \<in> set level_data"
    and la: "latitude info = Some lat" and lo: "longitude info = Some lng"
    and others: "\<forall>(k', i') \<in> set level_data. k' \<noteq> k \<longrightarrow> farther lat lng i'"
  shows "nearest_l2_loop lat lng level_data None = Inr (Some (k, 0))"
proof -
  from m obtain pre post where sp: "level_data = pre @ (k, info) # post"
    by (auto simp: in_set_conv_decomp)
  from d sp have npre: "k \<notin> fst ` set pre" and npost: "k \<notin> fst ` set post" by auto
  have fpre: "\<forall>(k', i') \<in> set pre. farther lat lng i'"
    using others npre unfolding sp by force
  have fpost: "\<forall>(k', i') \<in> set post. farther lat lng i'"
    using others npost unfolding sp by force
  from nearest_l2_loop_away [OF fpre, of None]
  obtain b where b: "nearest_l2_loop lat lng pre None = Inr b" and ab: "away b"
    by (auto simp: away_def)
  have "closer 0 b" using ab by (auto simp: closer_def away_def split: option.splits)
  then have "nearest_l2_loop lat lng ((k, info) # post) b = Inr (Some (k, 0))"
    using la lo nearest_l2_loop_keep [OF fpost, of k]
    by (simp add: haversine_distance_same)
  then show ?thesis
    unfolding sp by (simp add: nearest_l2_loop_append b)
qed

text \<open>
  C4 (as amended). When the coordinates of a listing equal the stored coordinates of a
  level-2 node and every other level-2 node with coordinates is strictly farther away,
  coordinate matching returns level 2, that node's id as the level-2 id, score 1.0, source
  "coordinates", and the ids of the node's parent chain, followed through the parent ids
  up to level 5.
\<close>

theorem exact_coordinates_match:
  assumes "lat \<noteq> 0" and "lng \<noteq> 0"
    and "distinct (map fst (l2 g))" and "(k, info) \<in> set (l2 g)"
    and "latitude info = Some lat" and "longitude info = Some lng"
    and "\<forall>(k', i') \<in> set (l2 g). k' \<noteq> k \<longrightarrow> farther lat lng i'"
  shows "match_by_coordinates scan lat lng g t ext st =
           Inr (Some (exact_result (get_parent_chain k 2 g)), g, st) \<and>
         match_listing scan tx (Some lat) (Some lng) ext g st =
           Inr (Some (exact_result (get_parent_chain k 2 g)), g, st) \<and>
         match_listing_with_texts scan tx g (Some lat) (Some lng) ext st =
           Inr (exact_result (get_parent_chain k 2 g), g, st) \<and>
         locGroup2Id (get_parent_chain k 2 g) = Some k \<and>
         (\<forall>p3 i3 p4 i4 p5.
            parent_id info = Some p3 \<and> p3 \<noteq> 0 \<and> map_of (l3 g) p3 = Some i3 \<and>
            parent_id i3 = Some p4 \<and> p4 \<noteq> 0 \<and> map_of (l4 g) p4 = Some i4 \<and>
            parent_id i4 = Some p5 \<and> p5 \<noteq> 0 \<longrightarrow>
            get_parent_chain k 2 g =
              \<lparr>locGroup2Id = Some k, locGroup3Id = Some p3, locGroup4Id = Some p4,
               locGroup5Id = Some p5\<rparr>)"
proof -
  have n: "nearest_l2_loop lat lng (l2 g) None = Inr (Some (k, 0))"
    using assms(3-7) by (rule nearest_l2_exact)
  have ne: "l2 g \<noteq> []" using assms(4) by auto
  have m: "map_of (l2 g) k = Some info" using assms(3,4) by simp
  have c: "match_by_coordinates scan lat lng g t ext st =
           Inr (Some (exact_result (get_parent_chain k 2 g)), g, st)" for t
    using assms(1,2) ne n
    by (simp add: match_by_coordinates_def max_l2_km_def coordinate_result_def exact_result_def
          update_chain_def empty_result_def py_round2_one)
  have h: "has_coordinates (Some lat) (Some lng)"
    using assms(1,2) by (simp add: has_coordinates_def truthy_coord_def)
  have "match_listing scan tx (Some lat) (Some lng) ext g st =
           Inr (Some (exact_result (get_parent_chain k 2 g)), g, st)"
    and "match_listing_with_texts scan tx g (Some lat) (Some lng) ext st =
           Inr (exact_result (get_parent_chain k 2 g), g, st)"
    using h c [of "Some tx"] by (simp_all add: match_listing_def match_listing_with_texts_def)
  then show ?thesis
    using c [of t] chain_level2 [of k g] full_chain [OF m] by blast
qed

subsection \<open>Municipality before department\<close>

lemma name_score_pos_variant:
  "0 < name_score s info \<Longrightarrow> \<exists>v \<in> set (all_variants info). re_search_word v s"
  using name_score_zero [of info s] by force

lemma variant_score_pos_variant:
  "0 < variant_score s info \<Longrightarrow> \<exists>v \<in> set (all_variants info). re_search_word v s"
  using variant_score_zero [of info s] by force

lemma name_score_exact:
  "normalized info \<noteq> [] \<Longrightarrow> re_search_word (normalized info) s \<Longrightarrow> name_score s info = 1"
  by (simp add: name_score_def re_search_word_str_in)

lemma variant_score_exact:
  "normalized info \<noteq> [] \<Longrightarrow> re_search_word (normalized info) s \<Longrightarrow> variant_score s info = 1"
  by (auto simp: variant_score_def all_variants_def list_ex_iff)

lemma re_search_word_nonempty: "re_search_word p s \<Longrightarrow> p \<noteq> [] \<Longrightarrow> s \<noteq> []"
  by (auto simp: re_search_word_def match_at_def startswith_def)

lemma find_best_some:
  assumes "(k, info) \<in> set level_data" and "texts_get t src \<noteq> []"
    and "0 < name_score (texts_get t src) info"
  shows "\<exists>k' sc' src'. find_best_match_in_level t level_data None = Some (k', sc', src') \<and>
           name_score (texts_get t src) info * source_weight src + boost src \<le> sc'"
proof -
  from find_match_in_level_max [OF assms(2) _ assms(3), of k level_data src] assms(1)
  obtain k2 sc2 where f: "find_match_in_level (texts_get t src) level_data src = Some (k2, sc2)"
    and le: "name_score (texts_get t src) info * source_weight src \<le> sc2" by auto
  then have p: "per_source t level_data None src = Some (k2, sc2)"
    using assms(2) by (simp add: per_source_def filtered_def)
  have "src \<in> set [Location, Title, Details, Description]" by (cases src) simp_all
  with best_match_loop_max [of None 0 t level_data None "[Location, Title, Details, Description]"] p
  have m: "sc2 + boost src \<le> score_of3 (find_best_match_in_level t level_data None)"
    unfolding find_best_match_in_level_def by (simp add: score_of3_def) blast
  have "0 < sc2 + boost src"
    using le assms(3) source_weight_pos [of src]
    by (smt (verit) boost_def mult_pos_pos divide_pos_pos)
  with m have "0 < score_of3 (find_best_match_in_level t level_data None)" by linarith
  then obtain k' sc' src' where "find_best_match_in_level t level_data None = Some (k', sc', src')"
    by (cases "find_best_match_in_level t level_data None") (auto simp: score_of3_def)
  with m le show ?thesis by (auto simp: score_of3_def)
qed

lemma find_match_some:
  assumes "(k, info) \<in> set level_data" and "texts_get t src \<noteq> []"
    and "0 < variant_score (texts_get t src) info"
  shows "\<exists>k' sc' src'. find_match t level_data None = Some (k', sc', src')"
proof -
  let ?r = "find_match_nodes t None level_data (None, 0)"
  have inv: "snd ?r = adj3 (fst ?r)"
    by (rule find_match_nodes_inv) (simp add: adj3_def)
  have "passes None info" by (simp add: passes_def truthy_id_def)
  then have "variant_score (texts_get t src) info + source_priority src * (1/1000) \<le> snd ?r"
    using find_match_nodes_max [of "(None, 0)" t None level_data] assms by auto
  moreover have "0 < source_priority src * (1/1000)"
    using source_priority_pos [of src] by simp
  ultimately have "0 < snd ?r" using assms(3) by linarith
  with inv have "fst ?r \<noteq> None" by (cases "fst ?r") (auto simp: adj3_def)
  then show ?thesis by (cases "fst ?r") (auto simp: find_match_def)
qed

lemma municipality_step_resolved:
  assumes "\<not> has_coordinates lat lng"
  shows "\<exists>r. municipality_step search scan t lat lng ext g st k sc src = Inr (r, g, st) \<and>
             resolved_to k g r"
  using assms chain_level3 [of k g]
  by (auto simp: municipality_step_def auto_l2_no_coords upgrade_l2_def level_result_def
        update_chain_def resolved_to_def split: option.splits)


lemma only_named_key:
  assumes "only_named t level_data m" and "(k, info) \<in> set level_data"
    and "v \<in> set (all_variants info)" and "re_search_word v (texts_get t src)"
  shows "k = m"
proof (rule ccontr)
  assume "k \<noteq> m"
  with assms(2) have "(k, info) \<in> set (filter (\<lambda>(k, info). k \<noteq> m) level_data)" by simp
  from no_variant_matchD [OF assms(1) [unfolded only_named_def] this assms(3)] assms(4)
  show False by simp
qed

lemma named_inI:
  "v \<in> set (all_variants info) \<Longrightarrow> re_search_word v (texts_get t src) \<Longrightarrow> named_in t info"
  using texts_items_all [of src] by (auto simp: named_in_def list_ex_iff)

lemma match_by_coordinates_none:
  "match_by_coordinates scan lat lng g t ext st = Inr (None, g', st') \<Longrightarrow> g' = g \<and> st' = st"
  by (auto simp: match_by_coordinates_def tier2_def split: if_splits sum.splits option.splits prod.splits)

lemma tier3_level:
  "tier3 scan t lat lng k g ext st r = Inr (r', g', st') \<Longrightarrow>
   matchLevel r = Some 3 \<Longrightarrow> matchLevel r' = Some 2 \<or> matchLevel r' = Some 3"
  by (auto simp: tier3_def split: option.splits sum.splits if_splits)

lemma match_by_coordinates_level:
  assumes "match_by_coordinates scan lat lng g t ext st = Inr (Some r, g', st')"
  shows "matchLevel r = Some 2 \<or> matchLevel r = Some 3"
proof -
  have c: "matchLevel (coordinate_result level sc ch) = Some level" for level sc ch
    by (simp add: coordinate_result_def update_chain_def)
  from assms show ?thesis
    by (auto simp: match_by_coordinates_def tier2_def c
          split: if_splits sum.splits option.splits prod.splits dest!: tier3_level)
qed

lemma municipality_step_resolved_any:
  assumes "municipality_step search scan t lat lng ext g st k sc src = Inr (r, g', st')"
  shows "resolved_to k g r"
proof -
  let ?r0 = "upgrade_l2 (search (l2 g) (Some k))
               (level_result 3 sc (Field src) (get_parent_chain k 3 g) empty_result)"
  have r0: "resolved_to k g ?r0"
    using chain_level3 [of k g]
    by (auto simp: upgrade_l2_def level_result_def update_chain_def resolved_to_def
          split: option.splits)
  from assms have "r = ?r0 \<or> (\<exists>a. r = ?r0\<lparr>locGroup2Id := a, matchLevel := Some 2,
                                             matchSource := Some Text_auto_l2\<rparr>)"
    by (auto simp: municipality_step_def auto_l2_def split: if_splits sum.splits prod.splits)
  with r0 show ?thesis by (auto simp: resolved_to_def)
qed


lemma title_names_municipality:
  assumes m: "(m, minfo) \<in> set (l3 g)" and ne: "normalized minfo \<noteq> []"
    and w: "re_search_word (normalized minfo) (texts_get t Title)"
  shows "\<exists>k sc src info. cleared (find_best_match_in_level t (l3 g) None) = Some (k, sc, src) \<and>
           (k, info) \<in> set (l3 g) \<and> named_in t info \<and> (only_named t (l3 g) m \<longrightarrow> k = m)"
    and "\<exists>k sc src info. cleared (find_match t (l3 g) None) = Some (k, sc, src) \<and>
           (k, info) \<in> set (l3 g) \<and> named_in t info \<and> (only_named t (l3 g) m \<longrightarrow> k = m)"
proof -
  have tne: "texts_get t Title \<noteq> []" using re_search_word_nonempty [OF w ne] .
  have ns: "name_score (texts_get t Title) minfo = 1" using ne w by (rule name_score_exact)
  have vs: "variant_score (texts_get t Title) minfo = 1" using ne w by (rule variant_score_exact)
  from find_best_some [OF m tne, unfolded ns] obtain k sc src
    where fb: "find_best_match_in_level t (l3 g) None = Some (k, sc, src)"
      and le: "1 * source_weight Title + boost Title \<le> sc" by auto
  from le have c: "cleared (find_best_match_in_level t (l3 g) None) = Some (k, sc, src)"
    by (simp add: fb cleared_def MIN_SCORE_def source_weight_def boost_def)
  from find_best_origin [OF fb] obtain info where
    ki: "(k, info) \<in> set (l3 g)" and pos: "0 < name_score (texts_get t src) info"
    by (auto simp: filtered_def)
  from name_score_pos_variant [OF pos] obtain v where
    v: "v \<in> set (all_variants info)" "re_search_word v (texts_get t src)" by auto
  have "only_named t (l3 g) m \<longrightarrow> k = m"
    using only_named_key [OF _ ki v] by simp
  with c ki named_inI [OF v]
  show "\<exists>k sc src info. cleared (find_best_match_in_level t (l3 g) None) = Some (k, sc, src) \<and>
           (k, info) \<in> set (l3 g) \<and> named_in t info \<and> (only_named t (l3 g) m \<longrightarrow> k = m)"
    by blast
  from find_match_some [OF m tne] vs obtain k2 sc2 src2
    where fm: "find_match t (l3 g) None = Some (k2, sc2, src2)" by auto
  from find_match_raw_score [OF fm]
  have c2: "cleared (find_match t (l3 g) None) = Some (k2, sc2, src2)"
    by (simp add: fm cleared_def)
  from find_match_origin [OF fm] obtain info2 where
    ki2: "(k2, info2) \<in> set (l3 g)" and pos2: "0 < variant_score (texts_get t src2) info2"
    by auto
  from variant_score_pos_variant [OF pos2] obtain v2 where
    v2: "v2 \<in> set (all_variants info2)" "re_search_word v2 (texts_get t src2)" by auto
  have "only_named t (l3 g) m \<longrightarrow> k2 = m"
    using only_named_key [OF _ ki2 v2] by simp
  with c2 ki2 named_inI [OF v2]
  show "\<exists>k sc src info. cleared (find_match t (l3 g) None) = Some (k, sc, src) \<and>
           (k, info) \<in> set (l3 g) \<and> named_in t info \<and> (only_named t (l3 g) m \<longrightarrow> k = m)"
    by blast
qed

lemma text_path_level:
  assumes m: "(m, minfo) \<in> set (l3 g)" and ne: "normalized minfo \<noteq> []"
    and w: "re_search_word (normalized minfo) (texts_get t Title)"
  shows "match_listing_text scan t lat lng ext g st = Inr (r, g', st') \<Longrightarrow>
         \<exists>x. r = Some x \<and> (matchLevel x = Some 2 \<or> matchLevel x = Some 3)"
    and "match_listing_with_texts_text scan t lat lng ext g st = Inr (r2, g', st') \<Longrightarrow>
         matchLevel r2 = Some 2 \<or> matchLevel r2 = Some 3"
proof -
  from title_names_municipality(1) [OF m ne w] obtain k sc src where
    c: "cleared (find_best_match_in_level t (l3 g) None) = Some (k, sc, src)" by blast
  show "\<exists>x. r = Some x \<and> (matchLevel x = Some 2 \<or> matchLevel x = Some 3)"
    if "match_listing_text scan t lat lng ext g st = Inr (r, g', st')"
    using that c municipality_step_resolved_any [of "find_best_match_in_level t" scan t lat lng ext g st k sc src]
    by (auto simp: match_listing_text_def resolved_to_def split: sum.splits)
  from title_names_municipality(2) [OF m ne w] obtain k2 sc2 src2 where
    c2: "cleared (find_match t (l3 g) None) = Some (k2, sc2, src2)" by blast
  show "matchLevel r2 = Some 2 \<or> matchLevel r2 = Some 3"
    if "match_listing_with_texts_text scan t lat lng ext g st = Inr (r2, g', st')"
    using that c2 municipality_step_resolved_any [of "find_match t" scan t lat lng ext g st k2 sc2 src2]
    by (auto simp: match_listing_with_texts_text_def resolved_to_def)
qed

lemma any_path_level:
  assumes m: "(m, minfo) \<in> set (l3 g)" and ne: "normalized minfo \<noteq> []"
    and w: "re_search_word (normalized minfo) (texts_get t Title)"
  shows "match_listing scan t lat lng ext g st = Inr (r, g', st') \<Longrightarrow>
         \<exists>x. r = Some x \<and> (matchLevel x = Some 2 \<or> matchLevel x = Some 3)"
    and "match_listing_with_texts scan t g lat lng ext st = Inr (r2, g', st') \<Longrightarrow>
         matchLevel r2 = Some 2 \<or> matchLevel r2 = Some 3"
proof -
  show "\<exists>x. r = Some x \<and> (matchLevel x = Some 2 \<or> matchLevel x = Some 3)"
    if h: "match_listing scan t lat lng ext g st = Inr (r, g', st')"
  proof (cases "has_coordinates lat lng")
    case False
    with h text_path_level(1) [OF m ne w] show ?thesis by (simp add: match_listing_def)
  next
    case True
    show ?thesis
    proof (cases "match_by_coordinates scan (the lat) (the lng) g (Some t) ext st")
      case (Inl e)
      with h True show ?thesis by (simp add: match_listing_def)
    next
      case (Inr a)
      obtain cr g2 st2 where a: "a = (cr, g2, st2)" by (cases a)
      show ?thesis
      proof (cases cr)
        case None
        with Inr a have "g2 = g \<and> st2 = st" by (auto dest: match_by_coordinates_none)
        with h True Inr a None text_path_level(1) [OF m ne w] show ?thesis
          by (simp add: match_listing_def)
      next
        case (Some x)
        with Inr a match_by_coordinates_level [of scan "the lat" "the lng" g "Some t" ext st x g2 st2]
          h True show ?thesis
          by (auto simp: match_listing_def)
      qed
    qed
  qed
  show "matchLevel r2 = Some 2 \<or> matchLevel r2 = Some 3"
    if h: "match_listing_with_texts scan t g lat lng ext st = Inr (r2, g', st')"
  proof (cases "has_coordinates lat lng")
    case False
    with h text_path_level(2) [OF m ne w] show ?thesis by (simp add: match_listing_with_texts_def)
  next
    case True
    show ?thesis
    proof (cases "match_by_coordinates scan (the lat) (the lng) g (Some t) ext st")
      case (Inl e)
      with h True show ?thesis by (simp add: match_listing_with_texts_def)
    next
      case (Inr a)
      obtain cr g2 st2 where a: "a = (cr, g2, st2)" by (cases a)
      show ?thesis
      proof (cases cr)
        case None
        with Inr a have "g2 = g \<and> st2 = st" by (auto dest: match_by_coordinates_none)
        with h True Inr a None text_path_level(2) [OF m ne w] show ?thesis
          by (simp add: match_listing_with_texts_def)
      next
        case (Some x)
        with Inr a match_by_coordinates_level [of scan "the lat" "the lng" g "Some t" ext st x g2 st2]
          h True show ?thesis
          by (auto simp: match_listing_with_texts_def)
      qed
    qed
  qed
qed

lemma no_coordinates_resolved:
  assumes nc: "\<not> has_coordinates lat lng"
    and m: "(m, minfo) \<in> set (l3 g)" and ne: "normalized minfo \<noteq> []"
    and w: "re_search_word (normalized minfo) (texts_get t Title)"
  shows "\<exists>r k info. match_listing scan t lat lng ext g st = Inr (Some r, g, st) \<and>
            (k, info) \<in> set (l3 g) \<and> named_in t info \<and> resolved_to k g r \<and>
            (only_named t (l3 g) m \<longrightarrow> k = m)"
    and "\<exists>r k info. match_listing_with_texts scan t g lat lng ext st = Inr (r, g, st) \<and>
            (k, info) \<in> set (l3 g) \<and> named_in t info \<and> resolved_to k g r \<and>
            (only_named t (l3 g) m \<longrightarrow> k = m)"
proof -
  from title_names_municipality(1) [OF m ne w] obtain k sc src info where
    c: "cleared (find_best_match_in_level t (l3 g) None) = Some (k, sc, src)"
    and i: "(k, info) \<in> set (l3 g)" "named_in t info" "only_named t (l3 g) m \<longrightarrow> k = m" by blast
  from municipality_step_resolved [OF nc, of "find_best_match_in_level t" scan t ext g st k sc src]
  obtain r where "municipality_step (find_best_match_in_level t) scan t lat lng ext g st k sc src
                  = Inr (r, g, st)" and "resolved_to k g r" by auto
  then show "\<exists>r k info. match_listing scan t lat lng ext g st = Inr (Some r, g, st) \<and>
            (k, info) \<in> set (l3 g) \<and> named_in t info \<and> resolved_to k g r \<and>
            (only_named t (l3 g) m \<longrightarrow> k = m)"
    using nc c i by (force simp: match_listing_def match_listing_text_def)
  from title_names_municipality(2) [OF m ne w] obtain k2 sc2 src2 info2 where
    c2: "cleared (find_match t (l3 g) None) = Some (k2, sc2, src2)"
    and i2: "(k2, info2) \<in> set (l3 g)" "named_in t info2" "only_named t (l3 g) m \<longrightarrow> k2 = m"
    by blast
  from municipality_step_resolved [OF nc, of "find_match t" scan t ext g st k2 sc2 src2]
  obtain r2 where "municipality_step (find_match t) scan t lat lng ext g st k2 sc2 src2
                  = Inr (r2, g, st)" and "resolved_to k2 g r2" by auto
  then show "\<exists>r k info. match_listing_with_texts scan t g lat lng ext st = Inr (r, g, st) \<and>
            (k, info) \<in> set (l3 g) \<and> named_in t info \<and> resolved_to k g r \<and>
            (only_named t (l3 g) m \<longrightarrow> k = m)"
    using nc c2 i2 by (force simp: match_listing_with_texts_def match_listing_with_texts_text_def)
qed

text \<open>
  C5 (as amended). A listing whose title contains the full normalised name of a
  municipality as a whole word never resolves to a bare department: whenever a result is
  returned, with or without coordinates, its level is 3 or 2. Without coordinates the
  listing resolves to a municipality named in its texts, with the parent chain of that
  municipality, and to that very municipality when no other municipality has a name in
  the texts. This holds whether or not a department name is part of the municipality name.
\<close>

theorem municipality_not_department:
  assumes m: "(m, minfo) \<in> set (l3 g)" and ne: "normalized minfo \<noteq> []"
    and w: "re_search_word (normalized minfo) (texts_get t Title)"
  shows "(\<forall>r g' st'. match_listing scan t lat lng ext g st = Inr (r, g', st') \<longrightarrow>
            (\<exists>x. r = Some x \<and> (matchLevel x = Some 2 \<or> matchLevel x = Some 3))) \<and>
         (\<forall>r g' st'. match_listing_with_texts scan t g lat lng ext st = Inr (r, g', st') \<longrightarrow>
            matchLevel r = Some 2 \<or> matchLevel r = Some 3) \<and>
         (\<not> has_coordinates lat lng \<longrightarrow>
            (\<exists>r k info. match_listing scan t lat lng ext g st = Inr (Some r, g, st) \<and>
               (k, info) \<in> set (l3 g) \<and> named_in t info \<and> resolved_to k g r \<and>
               (only_named t (l3 g) m \<longrightarrow> k = m)) \<and>
            (\<exists>r k info. match_listing_with_texts scan t g lat lng ext st = Inr (r, g, st) \<and>
               (k, info) \<in> set (l3 g) \<and> named_in t info \<and> resolved_to k g r \<and>
               (only_named t (l3 g) m \<longrightarrow> k = m)))"
proof (intro conjI allI impI)
  fix r g' st'
  assume "match_listing scan t lat lng ext g st = Inr (r, g', st')"
  then show "\<exists>x. r = Some x \<and> (matchLevel x = Some 2 \<or> matchLevel x = Some 3)"
    by (rule any_path_level(1) [OF assms])
next
  fix r g' st'
  assume "match_listing_with_texts scan t g lat lng ext st = Inr (r, g', st')"
  then show "matchLevel r = Some 2 \<or> matchLevel r = Some 3"
    by (rule any_path_level(2) [OF assms])
next
  assume "\<not> has_coordinates lat lng"
  then show "\<exists>r k info. match_listing scan t lat lng ext g st = Inr (Some r, g, st) \<and>
               (k, info) \<in> set (l3 g) \<and> named_in t info \<and> resolved_to k g r \<and>
               (only_named t (l3 g) m \<longrightarrow> k = m)"
    using assms by (rule no_coordinates_resolved(1))
next
  assume "\<not> has_coordinates lat lng"
  then show "\<exists>r k info. match_listing_with_texts scan t g lat lng ext st = Inr (r, g, st) \<and>
               (k, info) \<in> set (l3 g) \<and> named_in t info \<and> resolved_to k g r \<and>
               (only_named t (l3 g) m \<longrightarrow> k = m)"
    using assms by (rule no_coordinates_resolved(2))
qed


subsection \<open>The two decision procedures\<close>


section \<open>The claims on example data\<close>

subsection \<open>Evaluations\<close>

lemma benito_coords_nonzero: "benito_lat \<noteq> 0" "benito_lng \<noteq> 0"
  by (simp_all add: benito_lat_def benito_lng_def)

lemma almendros_candidate:
  "extract_colonia_candidate almendros_scan almendros_texts =
     Some (''Residencial Los Almendros'', ''residencial los almendros'', Title)"
  by (simp add: extract_colonia_candidate_def almendros_scan_def almendros_texts_def texts_get_fields)

lemma almendros_stripped: "remove_location_prefixes ''residencial los almendros'' = ''almendros''"
  by code_simp

lemma almendros_coords_nonzero: "almendros_lat \<noteq> 0" "almendros_lng \<noteq> 0"
  by (simp_all add: almendros_lat_def almendros_lng_def)

lemma benito_no_duplicate:
  "check_l2_duplicate ''residencial los almendros'' almendros_lat almendros_lng 1 benito_groups
     = Inr None"
proof -
  from north_two_hundredths [of almendros_lat almendros_lng] obtain d where
    "haversine_distance almendros_lat almendros_lng (almendros_lat + 1/50) almendros_lng = Inr d"
    and "1 \<le> d" by blast
  then show ?thesis
    by (simp add: check_l2_duplicate_def almendros_stripped benito_groups_def node_at_def node_def
          same_name_def L2_DEDUP_RADIUS_KM_def)
qed

lemma benito_next_id: "next_l2_id benito_groups = 21"
  by (simp add: next_l2_id_def benito_groups_def)

lemma benito_chain:
  "get_parent_chain 20 2 benito_at_groups =
     \<lparr>locGroup2Id = Some 20, locGroup3Id = Some 1, locGroup4Id = Some 40, locGroup5Id = Some 5\<rparr>"
  "get_parent_chain 20 2 twin_groups =
     \<lparr>locGroup2Id = Some 20, locGroup3Id = Some 1, locGroup4Id = Some 40, locGroup5Id = Some 5\<rparr>"
  "get_parent_chain 1 3 tecla_groups =
     \<lparr>locGroup2Id = None, locGroup3Id = Some 1, locGroup4Id = Some 40, locGroup5Id = Some 5\<rparr>"
  "get_parent_chain 1 3 benito_groups =
     \<lparr>locGroup2Id = None, locGroup3Id = Some 1, locGroup4Id = Some 40, locGroup5Id = Some 5\<rparr>"
  "get_parent_chain 3 3 cuscatlan_groups =
     \<lparr>locGroup2Id = None, locGroup3Id = Some 3, locGroup4Id = Some 40, locGroup5Id = Some 5\<rparr>"
  "get_parent_chain 1 3 miguel_groups =
     \<lparr>locGroup2Id = None, locGroup3Id = Some 1, locGroup4Id = Some 121, locGroup5Id = Some 12\<rparr>"
  by code_simp+

lemma benito_at_facts:
  "distinct (map fst (l2 benito_at_groups))"
  "(20, node_at 20 ''colonia san benito'' ''san benito'' (Some 1) benito_lat benito_lng)
     \<in> set (l2 benito_at_groups)"
  "latitude (node_at 20 ''colonia san benito'' ''san benito'' (Some 1) benito_lat benito_lng)
     = Some benito_lat"
  "longitude (node_at 20 ''colonia san benito'' ''san benito'' (Some 1) benito_lat benito_lng)
     = Some benito_lng"
  "\<forall>(k', i') \<in> set (l2 benito_at_groups). k' \<noteq> 20 \<longrightarrow> farther benito_lat benito_lng i'"
proof -
  from north_positive [of "1/50" benito_lat benito_lng] obtain d where
    "haversine_distance benito_lat benito_lng (benito_lat + 1/50) benito_lng = Inr d" and "0 < d"
    by auto
  then show "\<forall>(k', i') \<in> set (l2 benito_at_groups). k' \<noteq> 20 \<longrightarrow> farther benito_lat benito_lng i'"
    by (simp add: benito_at_groups_def node_at_def node_def farther_def)
qed (simp_all add: benito_at_groups_def node_at_def node_def)

lemma cuscatlan_title:
  "find_best_match_in_level (text_fields ''casa en venta, antiguo cuscatlan'' [] [] [])
     (l3 cuscatlan_groups) None = Some (3, 1, Title)"
  "find_best_match_in_level (text_fields ''casa en venta, antiguo cuscatlan'' [] [] [])
     (l2 cuscatlan_groups) (Some 3) = None"
  "find_match (text_fields ''casa en venta, antiguo cuscatlan'' [] [] [])
     (l3 cuscatlan_groups) None = Some (3, 1, Title)"
  "find_match (text_fields ''casa en venta, antiguo cuscatlan'' [] [] [])
     (l2 cuscatlan_groups) (Some 3) = None"
  "re_search_word ''antiguo cuscatlan'' ''casa en venta, antiguo cuscatlan''"
  "only_named (text_fields ''casa en venta, antiguo cuscatlan'' [] [] []) (l3 cuscatlan_groups) 3"
  "str_in ''cuscatlan'' ''antiguo cuscatlan''"
  by code_simp+

lemma cuscatlan_resolved:
  "match_listing no_scan (text_fields ''casa en venta, antiguo cuscatlan'' [] [] []) None None
     (Some 7) cuscatlan_groups idle_store = Inr (Some cuscatlan_result, cuscatlan_groups, idle_store)"
  "match_listing_with_texts no_scan (text_fields ''casa en venta, antiguo cuscatlan'' [] [] [])
     cuscatlan_groups None None (Some 7) idle_store
     = Inr (cuscatlan_result, cuscatlan_groups, idle_store)"
  by (simp_all add: match_listing_def match_listing_with_texts_def has_coordinates_def
        truthy_coord_def match_listing_text_def match_listing_with_texts_text_def cuscatlan_title
        cleared_def MIN_SCORE_def municipality_step_def auto_l2_def upgrade_l2_def level_result_def
        benito_chain update_chain_def empty_result_def py_round2_one cuscatlan_result_def)

lemma miguel_title:
  "find_best_match_in_level (text_fields ''casa en san miguel tepezontes'' [] [] [])
     (l3 miguel_groups) None = Some (1, 1, Title)"
  "find_best_match_in_level (text_fields ''casa en san miguel tepezontes'' [] [] [])
     (l2 miguel_groups) (Some 1) = None"
  "re_search_word ''san miguel tepezontes'' ''casa en san miguel tepezontes''"
  "str_in ''san miguel'' ''san miguel tepezontes''"
  by code_simp+



subsection \<open>Insert conflicts (C3)\<close>

text \<open>
  The claim as stated fails: after three conflicts the candidate found in the title is
  not staged; the staging queue stays empty.
\<close>

theorem exhausted_retries_not_staged:
  "try_create_l2_from_listing almendros_scan almendros_texts almendros_lat almendros_lng 1 benito_groups
     (Some 7) conflicting_store =
   Inr (None, benito_groups, \<lparr>replies = [], posted = [21, 22, 23], staged = []\<rparr>)"
  by (simp add: try_create_l2_from_listing_def almendros_candidate benito_no_duplicate truthy_id_def
        insert_auto_l2_def max_retries_def numeral_3_eq_3 benito_next_id conflicting_store_def)

theorem insert_conflict_not_staged_witness:
  "replies conflicting_store = Conflict # Conflict # Conflict # [] \<and>
   extract_colonia_candidate almendros_scan almendros_texts =
     Some (''Residencial Los Almendros'', ''residencial los almendros'', Title) \<and>
   check_l2_duplicate ''residencial los almendros'' almendros_lat almendros_lng 1 benito_groups
     = Inr None \<and>
   almendros_lat \<noteq> 0 \<and> almendros_lng \<noteq> 0 \<and>
   insert_auto_l2 ''Residencial Los Almendros'' ''residencial los almendros'' almendros_lat
     almendros_lng 1 benito_groups conflicting_store
     = (None, benito_groups, after_conflicts benito_groups conflicting_store) \<and>
   posted (after_conflicts benito_groups conflicting_store) = [21, 22, 23] \<and>
   staged (after_conflicts benito_groups conflicting_store) = [] \<and>
   find_match almendros_texts (l2 benito_groups) (Some 1) = None \<and>
   municipality_step (find_match almendros_texts) almendros_scan almendros_texts
     (Some almendros_lat) (Some almendros_lng) (Some 7) benito_groups conflicting_store 1 1 Title
     = Inr (\<lparr>locGroup2Id = None, locGroup3Id = Some 1, locGroup4Id = Some 40,
             locGroup5Id = Some 5, matchLevel = Some 3, matchScore = Some 1,
             matchSource = Some (Field Title)\<rparr>,
            benito_groups, after_conflicts benito_groups conflicting_store)"
proof -
  have l: "locGroup2Id empty_result = None"
    by (simp add: empty_result_def)
  have r: "replies conflicting_store = Conflict # Conflict # Conflict # []"
    by (simp add: conflicting_store_def)
  have f: "find_match almendros_texts (l2 benito_groups) (Some 1) = None"
    by code_simp
  show ?thesis
    using insert_conflict_not_staged
      [where search = "find_match almendros_texts" and ext = "Some 7" and ?l3_score = 1
         and ?l3_source = Title,
       OF r almendros_candidate _ benito_no_duplicate almendros_coords_nonzero l]
      almendros_candidate benito_no_duplicate r f almendros_coords_nonzero
    by (simp add: benito_next_id conflicting_store_def level_result_def benito_chain
          update_chain_def empty_result_def py_round2_one)
qed

subsection \<open>Idempotent discovery (C6)\<close>

theorem discovery_idempotent_witness:
  "try_create_l2_from_listing almendros_scan almendros_texts almendros_lat almendros_lng 1 benito_groups
     (Some 7) accepting_store =
     Inr (Some 21, almendros_groups, \<lparr>replies = [], posted = [21], staged = []\<rparr>) \<and>
   (21 :: int) \<noteq> 0 \<and> 0 \<notin> set (map fst (l2 benito_groups)) \<and>
   try_create_l2_from_listing almendros_scan almendros_texts almendros_lat almendros_lng 1 almendros_groups
     (Some 7) \<lparr>replies = [], posted = [21], staged = []\<rparr> =
     Inr (Some 21, almendros_groups, \<lparr>replies = [], posted = [21], staged = []\<rparr>)"
proof -
  have f: "try_create_l2_from_listing almendros_scan almendros_texts almendros_lat almendros_lng 1
             benito_groups (Some 7) accepting_store =
           Inr (Some 21, almendros_groups, \<lparr>replies = [], posted = [21], staged = []\<rparr>)"
    by (simp add: try_create_l2_from_listing_def almendros_candidate benito_no_duplicate
          truthy_id_def insert_auto_l2_def max_retries_def numeral_3_eq_3 benito_next_id
          accepting_store_def almendros_groups_def dict_set_def)
      (simp add: benito_groups_def)
  have z: "0 \<notin> set (map fst (l2 benito_groups))" by (simp add: benito_groups_def)
  from discovery_idempotent [OF f _ z] f z show ?thesis by simp
qed

subsection \<open>Exact coordinates (C4)\<close>

theorem exact_coordinates_match_witness:
  "benito_lat \<noteq> 0 \<and> benito_lng \<noteq> 0 \<and>
   distinct (map fst (l2 benito_at_groups)) \<and>
   list_all (\<lambda>(k', i'). k' = 20 \<or> farther benito_lat benito_lng i') (l2 benito_at_groups) \<and>
   match_by_coordinates no_scan benito_lat benito_lng benito_at_groups None (Some 7)
     idle_store = Inr (Some benito_result, benito_at_groups, idle_store)"
  using exact_coordinates_match [OF benito_coords_nonzero benito_at_facts,
          of no_scan None "Some 7" idle_store details_texts]
    benito_at_facts(1,5) benito_coords_nonzero
  by (simp add: benito_chain exact_result_def benito_result_def list_all_iff) auto

text \<open>
  The claim as stated fails when two nodes share the coordinates: no node is closer to
  the listing than node 21, and the matcher returns node 20, the first in the index.
\<close>

theorem colocated_nodes_first_wins:
  "latitude (node_at 21 ''colonia la mascota'' ''mascota'' (Some 1) benito_lat benito_lng)
     = Some benito_lat \<and>
   longitude (node_at 21 ''colonia la mascota'' ''mascota'' (Some 1) benito_lat benito_lng)
     = Some benito_lng \<and>
   haversine_distance benito_lat benito_lng benito_lat benito_lng = Inr 0 \<and>
   match_by_coordinates no_scan benito_lat benito_lng twin_groups None (Some 7) idle_store
     = Inr (Some benito_result, twin_groups, idle_store) \<and>
   locGroup2Id benito_result = Some 20"
proof -
  have n: "nearest_l2_loop benito_lat benito_lng (l2 twin_groups) None = Inr (Some (20, 0))"
    by (simp add: twin_groups_def node_at_def node_def haversine_distance_same closer_def)
  have ne: "l2 twin_groups \<noteq> []"
    by (simp add: twin_groups_def)
  show ?thesis
    by (simp add: match_by_coordinates_def n ne max_l2_km_def coordinate_result_def benito_chain
          update_chain_def empty_result_def py_round2_one benito_result_def node_at_def node_def
          haversine_distance_same benito_coords_nonzero)
qed

subsection \<open>Municipality before department (C5)\<close>

theorem municipality_not_department_witness:
  "(3, node 3 ''antiguo cuscatlan'' ''antiguo cuscatlan'' (Some 40)) \<in> set (l3 cuscatlan_groups) \<and>
   map_of (l5 cuscatlan_groups) 7 = Some (node 7 ''cuscatlan'' ''cuscatlan'' None) \<and>
   str_in ''cuscatlan'' ''antiguo cuscatlan'' \<and>
   re_search_word ''antiguo cuscatlan'' ''casa en venta, antiguo cuscatlan'' \<and>
   \<not> has_coordinates None None \<and>
   only_named (text_fields ''casa en venta, antiguo cuscatlan'' [] [] []) (l3 cuscatlan_groups) 3 \<and>
   match_listing no_scan (text_fields ''casa en venta, antiguo cuscatlan'' [] [] []) None None
     (Some 7) cuscatlan_groups idle_store
     = Inr (Some cuscatlan_result, cuscatlan_groups, idle_store) \<and>
   match_listing_with_texts no_scan (text_fields ''casa en venta, antiguo cuscatlan'' [] [] [])
     cuscatlan_groups None None (Some 7) idle_store
     = Inr (cuscatlan_result, cuscatlan_groups, idle_store) \<and>
   resolved_to 3 cuscatlan_groups cuscatlan_result \<and>
   matchLevel cuscatlan_result = Some 3"
proof -
  have nc: "\<not> has_coordinates None None" by (simp add: has_coordinates_def truthy_coord_def)
  have m: "(3, node 3 ''antiguo cuscatlan'' ''antiguo cuscatlan'' (Some 40)) \<in> set (l3 cuscatlan_groups)"
    by (simp add: cuscatlan_groups_def)
  have d: "map_of (l5 cuscatlan_groups) 7 = Some (node 7 ''cuscatlan'' ''cuscatlan'' None)"
    by (simp add: cuscatlan_groups_def)
  have ne: "normalized (node 3 ''antiguo cuscatlan'' ''antiguo cuscatlan'' (Some 40)) \<noteq> []"
    by (simp add: node_def)
  have w: "re_search_word (normalized (node 3 ''antiguo cuscatlan'' ''antiguo cuscatlan'' (Some 40)))
             (texts_get (text_fields ''casa en venta, antiguo cuscatlan'' [] [] []) Title)"
    by (simp add: node_def texts_get_fields cuscatlan_title)
  from municipality_not_department [OF m ne w, of no_scan None None "Some 7" idle_store]
  have "resolved_to 3 cuscatlan_groups cuscatlan_result"
    using nc by (auto simp: cuscatlan_resolved cuscatlan_title)
  with nc m d show ?thesis
    by (simp add: cuscatlan_resolved cuscatlan_title startswith_def cuscatlan_result_def)
qed

text \<open>
  The claim as stated fails when the name of another municipality is part of the name in
  the title: the department and the municipality San Miguel are both named "san miguel",
  the title names San Miguel Tepezontes (of La Paz), and the listing resolves to the
  municipality San Miguel, the first of the two in the index with score 1.
\<close>

theorem longer_municipality_name_loses:
  "map_of (l5 miguel_groups) 12 = Some (node 12 ''san miguel'' ''san miguel'' None) \<and>
   map_of (l3 miguel_groups) 2
     = Some (node 2 ''san miguel tepezontes'' ''san miguel tepezontes'' (Some 81)) \<and>
   str_in ''san miguel'' ''san miguel tepezontes'' \<and>
   re_search_word ''san miguel tepezontes'' ''casa en san miguel tepezontes'' \<and>
   match_listing no_scan (text_fields ''casa en san miguel tepezontes'' [] [] []) None None (Some 7)
     miguel_groups idle_store =
   Inr (Some \<lparr>locGroup2Id = None, locGroup3Id = Some 1, locGroup4Id = Some 121,
              locGroup5Id = Some 12, matchLevel = Some 3, matchScore = Some 1,
              matchSource = Some (Field Title)\<rparr>, miguel_groups, idle_store)"
  by (simp add: match_listing_def has_coordinates_def truthy_coord_def match_listing_text_def
        miguel_title cleared_def MIN_SCORE_def municipality_step_def auto_l2_def upgrade_l2_def
        level_result_def benito_chain update_chain_def empty_result_def py_round2_one
        startswith_def)
     (simp add: miguel_groups_def)

subsection \<open>The two decision procedures (C8)\<close>





end
